theory Spec2Isabelle
  imports Complex_Main "HOL-Library.Multiset"
begin

section \<open>Trace span hierarchy and Gantt layout\<close>

text \<open>
  A shallow embedding of the span parser \<^verbatim>\<open>parseSpanHitData\<close>, the hierarchy builder
  \<^verbatim>\<open>hitsToHierarchicalSpans\<close> (both in \<^verbatim>\<open>traces_request_handler.ts\<close>), the layout function
  \<^verbatim>\<open>createPlotlyData\<close> and the viewport code of \<^verbatim>\<open>SpanDetailPanel\<close> (the span detail panel).

  Conventions of the embedding.
  \<^item> JavaScript numbers are idealised as \<^typ>\<open>real\<close>: the numeric fields of a hit are finite
    numbers, and the rounding error of IEEE doubles is not modelled.
  \<^item> A missing property (\<^verbatim>\<open>undefined\<close>) of a hit is \<^const>\<open>None\<close>. The span ids and the
    reference targets are strings, as the TypeScript types of the source declare them.
  \<^item> An exception is a value of type \<open>error\<close> on the left of a sum.
  \<^item> The objects of \<^verbatim>\<open>spanMap\<close> are shared: the root list and every \<^verbatim>\<open>children\<close> array hold
    references to them. A reference to the object \<^verbatim>\<open>spanMap[k]\<close> is modelled by the key \<open>k\<close>
    and the object graph by the map itself. All references are taken after the map is
    complete, so an object that a later hit with the same id replaced is unreachable.
  \<^item> \<^verbatim>\<open>spanMap\<close> is a plain object, so a lookup \<^verbatim>\<open>spanMap[k]\<close> also finds the properties that
    it inherits from \<^verbatim>\<open>Object.prototype\<close> (\<open>objectPrototypeKeys\<close> below); each of them is an
    object, hence truthy, and none of them is an object of the hierarchy. The span id of a
    hit is taken not to be \<^verbatim>\<open>__proto__\<close>, the one key whose assignment does not store an
    entry.
\<close>

subsection \<open>Data model\<close>

datatype TraceAnalyticsMode = jaeger | data_prepper | custom_data_prepper

datatype error = TypeError | RangeError

datatype RefType = CHILD_OF | FOLLOWS_FROM

record SpanReference =
  refType :: RefType
  ref_spanID :: string

text \<open>The field \<^verbatim>\<open>startTime\<close>: a number of microseconds in a jaeger document, an ISO-8601
  string in a data-prepper document.\<close>

datatype js_time = TNum real | TStr string

record Process =
  proc_serviceName :: "string option"

text \<open>\<open>tag_error\<close> is the property \<^verbatim>\<open>error\<close> of the \<^verbatim>\<open>tag\<close> object when it is a boolean.\<close>

record Tag =
  tag_error :: "bool option"

text \<open>The properties of \<^verbatim>\<open>hit._source\<close> that the code reads, for both document schemas.
  \<open>status_code\<close> is the property whose name is the string \<^verbatim>\<open>status.code\<close>.\<close>

record Source =
  spanID :: string
  spanId :: string
  startTime :: js_time
  duration :: real
  durationInNanos :: real
  process :: "Process option"
  serviceName :: "string option"
  operationName :: "string option"
  name :: "string option"
  tag :: "Tag option"
  status_code :: "real option"
  references :: "SpanReference list option"
  parentSpanId :: "string option"

record ParsedHit =
  source :: Source

text \<open>\<^verbatim>\<open>HierarchicalSpan\<close>: \<open>children\<close> holds references (keys of \<^verbatim>\<open>spanMap\<close>).\<close>

record HierarchicalSpan =
  hit :: ParsedHit
  startTimeInNanos :: real
  children :: "string list"

type_synonym SpanMap = "string \<rightharpoonup> HierarchicalSpan"

subsection \<open>Helpers\<close>

text \<open>Modelled from the spec: \<^verbatim>\<open>microToMilliSec\<close> of \<^verbatim>\<open>helper_functions\<close> is not among the
  sources; section 4.1 gives microseconds to milliseconds as a division by 1000.\<close>

definition microToMilliSec :: "real \<Rightarrow> real" where
  "microToMilliSec micro = micro / 1000"

text \<open>Modelled from the spec: \<^verbatim>\<open>nanoToMilliSec\<close> of \<^verbatim>\<open>helper_functions\<close> is not among the
  sources; section 4.1 gives nanoseconds to milliseconds as a division by 1,000,000.\<close>

definition nanoToMilliSec :: "real \<Rightarrow> real" where
  "nanoToMilliSec nano = nano / 1000000"

text \<open>\<^verbatim>\<open>round(number, 2)\<close> of lodash: the decimal point is shifted by two places,
  \<^verbatim>\<open>Math.round\<close> (which rounds a half up) is applied, and the point is shifted back.\<close>

definition round2 :: "real \<Rightarrow> real" where
  "round2 number = real_of_int \<lfloor>number * 100 + 1 / 2\<rfloor> / 100"

text \<open>String conversion in a template literal or a property key.\<close>

definition toString :: "string option \<Rightarrow> string" where
  "toString v = (case v of None \<Rightarrow> ''undefined'' | Some s \<Rightarrow> s)"

definition truthy :: "string \<Rightarrow> bool" where
  "truthy s = (s \<noteq> [])"

definition digit :: "nat \<Rightarrow> char" where
  "digit d = ''0123456789'' ! (d mod 10)"

function showNat :: "nat \<Rightarrow> string" where
  "showNat n = (if n < 10 then [digit n] else showNat (n div 10) @ [digit n])"
  by pat_completeness auto
termination
  by (relation "measure id") auto

declare showNat.simps [simp del]

text \<open>\<^verbatim>\<open>Number.prototype.toFixed(2)\<close> for a number below \<open>10\<^sup>2\<^sup>1\<close> in absolute value: the
  integer \<open>n\<close> nearest to a hundred times the absolute value (the larger one at a tie),
  printed with two decimals, after the sign.\<close>

definition toFixed2 :: "real \<Rightarrow> string" where
  "toFixed2 x =
     (let n = nat \<lfloor>\<bar>x\<bar> * 100 + 1 / 2\<rfloor>
      in (if x < 0 then ''-'' else '''') @ showNat (n div 100) @ ''.'' @
         [digit (n div 10), digit n])"

text \<open>\<^verbatim>\<open>Array.prototype.forEach\<close> with a callback that updates a state and may throw.\<close>

fun forEach :: "('a \<Rightarrow> 's \<Rightarrow> error + 's) \<Rightarrow> 'a list \<Rightarrow> 's \<Rightarrow> error + 's" where
  "forEach f [] s = Inr s"
| "forEach f (x # xs) s = (case f x s of Inl e \<Rightarrow> Inl e | Inr s' \<Rightarrow> forEach f xs s')"

text \<open>\<^verbatim>\<open>Array.prototype.map\<close> with a callback that may throw.\<close>

fun mapE :: "('a \<Rightarrow> error + 'b) \<Rightarrow> 'a list \<Rightarrow> error + 'b list" where
  "mapE f [] = Inr []"
| "mapE f (x # xs) =
     (case f x of Inl e \<Rightarrow> Inl e
      | Inr y \<Rightarrow> (case mapE f xs of Inl e \<Rightarrow> Inl e | Inr ys \<Rightarrow> Inr (y # ys)))"

subsection \<open>The span parser\<close>

record SpanHitData =
  hd_spanId :: string
  hd_durationInMs :: real
  hd_serviceName :: "string option"
  hd_name :: "string option"
  hd_error :: string

text \<open>The text of the error marker: a space, the warning sign U+26A0 (in UTF-8) and
  \<^verbatim>\<open> Error\<close>.\<close>

definition errorText :: string where
  "errorText = '' '' @ [CHR 0xE2, CHR 0x9A, CHR 0xA0] @ '' Error''"

text \<open>\<^verbatim>\<open>parseSpanHitData\<close>. In jaeger mode \<^verbatim>\<open>get(span._source, ['process']).serviceName\<close>
  reads a property of the result of \<^verbatim>\<open>get\<close>, which throws a \<^verbatim>\<open>TypeError\<close> when the document
  has no \<^verbatim>\<open>process\<close>; the tag is read with optional chaining.\<close>

definition parseSpanHitData :: "ParsedHit \<Rightarrow> TraceAnalyticsMode \<Rightarrow> error + SpanHitData" where
  "parseSpanHitData spn mode =
     (let src = source spn;
          sid = (if mode = jaeger then spanID src else spanId src);
          durationInMs =
            (if mode = jaeger then round2 (microToMilliSec (duration src))
             else round2 (nanoToMilliSec (durationInNanos src)));
          err =
            (if mode = jaeger
             then (if (case tag src of None \<Rightarrow> None | Some t \<Rightarrow> tag_error t) = Some True
                   then errorText else '''')
             else (if status_code src = Some 2 then errorText else ''''))
      in if mode = jaeger
         then (case process src of
                 None \<Rightarrow> Inl TypeError
               | Some p \<Rightarrow>
                   Inr \<lparr>hd_spanId = sid, hd_durationInMs = durationInMs,
                        hd_serviceName = proc_serviceName p,
                        hd_name = operationName src, hd_error = err\<rparr>)
         else Inr \<lparr>hd_spanId = sid, hd_durationInMs = durationInMs,
                   hd_serviceName = serviceName src,
                   hd_name = name src, hd_error = err\<rparr>)"

subsection \<open>The hierarchy builder\<close>

text \<open>The two conversions of a start time that are not part of the sources: what
  \<^verbatim>\<open>Number\<close> gives on a string, and \<^verbatim>\<open>parseIsoToNano\<close> of \<^verbatim>\<open>helper_functions\<close>. They are
  parameters of the model. \<^verbatim>\<open>Number\<close> is the identity on a number.\<close>

record Conversions =
  stringToNumber :: "string \<Rightarrow> real"
  parseIsoToNano :: "js_time \<Rightarrow> real"

definition Number :: "Conversions \<Rightarrow> js_time \<Rightarrow> real" where
  "Number cv v = (case v of TNum r \<Rightarrow> r | TStr s \<Rightarrow> stringToNumber cv s)"

definition getStartTimeInNanos :: "Conversions \<Rightarrow> ParsedHit \<Rightarrow> TraceAnalyticsMode \<Rightarrow> real" where
  "getStartTimeInNanos cv h mode =
     (if mode = jaeger then Number cv (startTime (source h)) * 1000
      else parseIsoToNano cv (startTime (source h)))"

record BuildState =
  spanMap :: SpanMap
  rootSpans :: "string list"
  alreadyAddedRootSpans :: "string set"

definition addRootSpan :: "string \<Rightarrow> BuildState \<Rightarrow> BuildState" where
  "addRootSpan sid s =
     (if sid \<notin> alreadyAddedRootSpans s
      then s\<lparr>rootSpans := rootSpans s @ [sid],
             alreadyAddedRootSpans := insert sid (alreadyAddedRootSpans s)\<rparr>
      else s)"

text \<open>The names of the properties of \<^verbatim>\<open>Object.prototype\<close>, which every plain object
  inherits.\<close>

definition objectPrototypeKeys :: "string list" where
  "objectPrototypeKeys =
     [''constructor'', ''__defineGetter__'', ''__defineSetter__'', ''hasOwnProperty'',
      ''__lookupGetter__'', ''__lookupSetter__'', ''isPrototypeOf'', ''propertyIsEnumerable'',
      ''toString'', ''valueOf'', ''__proto__'', ''toLocaleString'']"

text \<open>Whether \<^verbatim>\<open>spanMap[k]\<close> is truthy: the key has an entry or is inherited.\<close>

definition found :: "SpanMap \<Rightarrow> string \<Rightarrow> bool" where
  "found m k = (m k \<noteq> None \<or> k \<in> set objectPrototypeKeys)"

text \<open>\<^verbatim>\<open>parentSpan.children.push(spanMap[child])\<close> for the object at key \<open>parent\<close>. When
  \<^verbatim>\<open>spanMap[parent]\<close> is an inherited property, the child is appended to an array that is
  given to that object of \<^verbatim>\<open>Object.prototype\<close>, which is no part of the hierarchy: the
  state of the builder stays as it is.\<close>

definition pushChild :: "string \<Rightarrow> string \<Rightarrow> BuildState \<Rightarrow> BuildState" where
  "pushChild parent child s =
     (case spanMap s parent of
        None \<Rightarrow> s
      | Some parentSpan \<Rightarrow>
          s\<lparr>spanMap := (spanMap s)(parent \<mapsto>
               parentSpan\<lparr>children := children parentSpan @ [child]\<rparr>)\<rparr>)"

text \<open>The first loop: one fresh object per hit, a later hit replacing an earlier one with
  the same id.\<close>

definition indexHit :: "Conversions \<Rightarrow> TraceAnalyticsMode \<Rightarrow> ParsedHit \<Rightarrow> SpanMap \<Rightarrow> SpanMap" where
  "indexHit cv mode h m =
     m((if mode = jaeger then spanID (source h) else spanId (source h)) \<mapsto>
        \<lparr>hit = h, startTimeInNanos = getStartTimeInNanos cv h mode, children = []\<rparr>)"

text \<open>The body of \<^verbatim>\<open>references.forEach\<close> in jaeger mode. The test \<^verbatim>\<open>if (parentSpan)\<close>
  also holds for an inherited property, for which \<open>pushChild\<close> leaves the state as it
  is.\<close>

definition linkReference :: "string \<Rightarrow> SpanReference \<Rightarrow> BuildState \<Rightarrow> BuildState" where
  "linkReference sid ref s =
     (let s1 = (if refType ref = CHILD_OF then pushChild (ref_spanID ref) sid s else s)
      in if refType ref = FOLLOWS_FROM \<and> sid \<notin> alreadyAddedRootSpans s1
         then addRootSpan sid s1 else s1)"

text \<open>The body of the second loop.\<close>

definition linkHit :: "TraceAnalyticsMode \<Rightarrow> ParsedHit \<Rightarrow> BuildState \<Rightarrow> BuildState" where
  "linkHit mode h s =
     (if mode = jaeger
      then (let src = source h;
                refs = (case references src of None \<Rightarrow> [] | Some rs \<Rightarrow> rs);
                s1 = fold (linkReference (spanID src)) refs s
            in if refs = [] \<or> list_all (\<lambda>ref. refType ref = FOLLOWS_FROM) refs
               then addRootSpan (spanID src) s1 else s1)
      else (let src = source h;
                asRoot = (if truthy (spanId src) \<and> found (spanMap s) (spanId src)
                          then addRootSpan (spanId src) s else s)
            in case parentSpanId src of
                 None \<Rightarrow> asRoot
               | Some p \<Rightarrow>
                   if truthy p \<and> found (spanMap s) p
                   then (if found (spanMap s) (spanId src)
                         then pushChild p (spanId src) s else s)
                   else asRoot))"

text \<open>\<^verbatim>\<open>hitsToHierarchicalSpans\<close> returns the root list; the objects it refers to are
  returned with it.\<close>

definition hitsToHierarchicalSpans ::
  "Conversions \<Rightarrow> ParsedHit list \<Rightarrow> TraceAnalyticsMode \<Rightarrow> SpanMap \<times> string list" where
  "hitsToHierarchicalSpans cv hits mode =
     (let m = fold (indexHit cv mode) hits Map.empty;
          s = fold (linkHit mode) hits
                \<lparr>spanMap = m, rootSpans = [], alreadyAddedRootSpans = {}\<rparr>
      in (spanMap s, rootSpans s))"

subsection \<open>The layout\<close>

text \<open>A bar of the chart. The one-element arrays \<^verbatim>\<open>x: [durationInMs]\<close> and \<^verbatim>\<open>y: [spanId]\<close>
  are held as their element, which \<^verbatim>\<open>x[0]\<close> and \<^verbatim>\<open>y[0]\<close> read; \<open>customdata\<close> is
  \<^verbatim>\<open>[spanId, durationInMs, delayInMs]\<close>. The constant properties are left out.\<close>

record PlotData =
  bar_x :: real
  bar_y :: string
  customdata :: "string \<times> real \<times> real"
  marker_color :: "string option"
  base :: real
  bar_spanId :: string

record Annotation =
  ann_x :: real
  ann_y :: string
  ann_text :: string

record Plot =
  data :: "PlotData list"
  annotations :: "Annotation list"
  maxX :: real

text \<open>The start time that the comparator of \<^verbatim>\<open>sort\<close> reads from the object behind a
  reference. The builder stores no dangling reference (lemma \<open>build_references_resolve\<close>),
  so the value given to one is never used on a hierarchy that it returns.\<close>

definition startOf :: "SpanMap \<Rightarrow> string \<Rightarrow> real" where
  "startOf m k = (case m k of None \<Rightarrow> 0 | Some sp \<Rightarrow> startTimeInNanos sp)"

definition labelText :: "SpanHitData \<Rightarrow> string" where
  "labelText p =
     (if truthy (hd_error p)
      then ''<span style=\"color: red;\">'' @ hd_error p @ ''</span>&nbsp;&nbsp;''
      else '''') @
     toString (hd_serviceName p) @ '': '' @ toString (hd_name p) @ '' - '' @
     toFixed2 (hd_durationInMs p) @ ''ms''"

text \<open>The objects \<^verbatim>\<open>spanBar\<close> and \<^verbatim>\<open>spanBarLabel\<close> that \<^verbatim>\<open>processSpan\<close> builds for a span
  whose delay is \<open>delayInMs\<close>.\<close>

definition spanBar :: "(string \<rightharpoonup> string) \<Rightarrow> real \<Rightarrow> SpanHitData \<Rightarrow> PlotData" where
  "spanBar colorMap delayInMs p =
     \<lparr>bar_x = hd_durationInMs p, bar_y = hd_spanId p,
      customdata = (hd_spanId p, hd_durationInMs p, delayInMs),
      marker_color = colorMap (toString (hd_serviceName p)),
      base = delayInMs, bar_spanId = hd_spanId p\<rparr>"

definition spanBarLabel :: "real \<Rightarrow> SpanHitData \<Rightarrow> Annotation" where
  "spanBarLabel delayInMs p =
     \<lparr>ann_x = delayInMs, ann_y = hd_spanId p, ann_text = labelText p\<rparr>"

text \<open>What one call of \<^verbatim>\<open>processSpan\<close> does before it visits the children.\<close>

definition emitSpan ::
  "(string \<rightharpoonup> string) \<Rightarrow> real \<Rightarrow> HierarchicalSpan \<Rightarrow> SpanHitData \<Rightarrow> Plot \<Rightarrow> Plot" where
  "emitSpan colorMap startTimeInMs sp p acc =
     (let delayInMs = nanoToMilliSec (startTimeInNanos sp) - startTimeInMs
      in \<lparr>data = data acc @ [spanBar colorMap delayInMs p],
          annotations = annotations acc @ [spanBarLabel delayInMs p],
          maxX = max (maxX acc) (delayInMs + hd_durationInMs p)\<rparr>)"

text \<open>\<^verbatim>\<open>processSpan\<close>. The first argument is the number of nested calls the call stack still
  has room for; a call beyond it throws a \<^verbatim>\<open>RangeError\<close>, as a recursion through a cycle
  of \<^verbatim>\<open>children\<close> does in the end. A reference that is \<^verbatim>\<open>undefined\<close> has no
  \<^verbatim>\<open>startTimeInNanos\<close> to read. \<^verbatim>\<open>sort\<close> is stable and its comparator is the difference of
  the start times, so it sorts by that key; it also reorders the array in place, which the
  model does not record: sorting a sorted array again leaves it as it is.\<close>

fun processSpan ::
  "nat \<Rightarrow> SpanMap \<Rightarrow> TraceAnalyticsMode \<Rightarrow> (string \<rightharpoonup> string) \<Rightarrow> real \<Rightarrow> string \<Rightarrow> Plot
     \<Rightarrow> error + Plot" where
  "processSpan 0 m mode colorMap startTimeInMs spn acc = Inl RangeError"
| "processSpan (Suc depth) m mode colorMap startTimeInMs spn acc =
     (case m spn of
        None \<Rightarrow> Inl TypeError
      | Some sp \<Rightarrow>
          (case parseSpanHitData (hit sp) mode of
             Inl e \<Rightarrow> Inl e
           | Inr p \<Rightarrow>
               forEach (\<lambda>c a. processSpan depth m mode colorMap startTimeInMs c a)
                 (sort_key (startOf m) (children sp))
                 (emitSpan colorMap startTimeInMs sp p acc)))"

definition createPlotlyData ::
  "nat \<Rightarrow> SpanMap \<Rightarrow> string list \<Rightarrow> TraceAnalyticsMode \<Rightarrow> (string \<rightharpoonup> string) \<Rightarrow> real
     \<Rightarrow> error + Plot" where
  "createPlotlyData depth m spans mode colorMap startTimeInMs =
     forEach (\<lambda>c a. processSpan depth m mode colorMap startTimeInMs c a)
       (sort_key (startOf m) spans)
       \<lparr>data = [], annotations = [], maxX = 0\<rparr>"

subsection \<open>The panel\<close>

record PanelState =
  gantt :: "PlotData list"
  ganttAnnotations :: "Annotation list"
  ganttMax :: real
  selectedRange :: "real \<times> real"

definition fullRange :: "PanelState \<Rightarrow> real \<times> real" where
  "fullRange st = (0, ganttMax st * 1.1)"

text \<open>The handler of the button "Reset zoom".\<close>

definition resetZoom :: "PanelState \<Rightarrow> PanelState" where
  "resetZoom st = st\<lparr>selectedRange := fullRange st\<rparr>"

text \<open>\<^verbatim>\<open>Math.min\<close> of a list of arguments; \<^const>\<open>None\<close> is the \<^verbatim>\<open>Infinity\<close> it returns for no
  argument.\<close>

fun Math_min :: "real list \<Rightarrow> real option" where
  "Math_min [] = None"
| "Math_min (x # xs) = Some (fold min xs x)"

text \<open>The effect of \<^verbatim>\<open>SpanDetailPanel\<close> that rebuilds the chart from the hits of the payload
  (\<open>buildChartModel\<close> in the specification). With no root \<^verbatim>\<open>startTimeInMs\<close> is \<^verbatim>\<open>Infinity\<close>
  and no span reads it.\<close>

definition buildChartModel ::
  "nat \<Rightarrow> Conversions \<Rightarrow> ParsedHit list \<Rightarrow> TraceAnalyticsMode \<Rightarrow> (string \<rightharpoonup> string)
     \<Rightarrow> error + PanelState" where
  "buildChartModel depth cv hits mode colorMap =
     (let (m, hierarchicalSpans) = hitsToHierarchicalSpans cv hits mode
      in case (case Math_min (map (\<lambda>k. nanoToMilliSec (startOf m k)) hierarchicalSpans) of
                 None \<Rightarrow> Inr \<lparr>data = [], annotations = [], maxX = 0\<rparr>
               | Some startTimeInMs \<Rightarrow>
                   createPlotlyData depth m hierarchicalSpans mode colorMap startTimeInMs) of
           Inl e \<Rightarrow> Inl e
         | Inr r \<Rightarrow>
             Inr \<lparr>gantt = data r, ganttAnnotations = annotations r, ganttMax = maxX r,
                  selectedRange = (0, maxX r * 1.1)\<rparr>)"

text \<open>The annotations of the layout: the label of a bar that starts left of the visible
  range and ends inside it is moved to the start of the range. \<^verbatim>\<open>data.gantt[i]\<close> is read
  only when the first test holds.\<close>

definition normalizeAnnotation ::
  "PlotData list \<Rightarrow> real \<times> real \<Rightarrow> Annotation \<times> nat \<Rightarrow> error + Annotation" where
  "normalizeAnnotation g rng ai =
     (let (annotation, i) = ai;
          normalizedX = ann_x annotation
      in if normalizedX < fst rng
         then (if i < length g
               then (if ann_y annotation = bar_y (g ! i) \<and>
                        base (g ! i) + bar_x (g ! i) > fst rng
                     then Inr (annotation\<lparr>ann_x := fst rng\<rparr>)
                     else Inr (annotation\<lparr>ann_x := normalizedX\<rparr>))
               else Inl TypeError)
         else Inr (annotation\<lparr>ann_x := normalizedX\<rparr>))"

definition layoutAnnotations :: "PanelState \<Rightarrow> error + Annotation list" where
  "layoutAnnotations st =
     mapE (normalizeAnnotation (gantt st) (selectedRange st))
       (zip (ganttAnnotations st) [0 ..< length (ganttAnnotations st)])"

section \<open>Notions used in the statements\<close>

subsection \<open>The hits and the hierarchy\<close>

text \<open>The span id of a hit, as either loop of the builder reads it.\<close>

definition hitId :: "TraceAnalyticsMode \<Rightarrow> ParsedHit \<Rightarrow> string" where
  "hitId mode h = (if mode = jaeger then spanID (source h) else spanId (source h))"

text \<open>\<^verbatim>\<open>source.references || []\<close>.\<close>

definition refsOf :: "ParsedHit \<Rightarrow> SpanReference list" where
  "refsOf h = (case references (source h) of None \<Rightarrow> [] | Some rs \<Rightarrow> rs)"

text \<open>The parents to whose children the builder appends the span of a hit, in the order of
  the loop, when \<open>ids\<close> are the keys of \<^verbatim>\<open>spanMap\<close>: in jaeger mode the targets of its
  \<open>CHILD_OF\<close> references that resolve, otherwise its \<^verbatim>\<open>parentSpanId\<close> when it is not empty and
  resolves.\<close>

definition attachments :: "TraceAnalyticsMode \<Rightarrow> string set \<Rightarrow> ParsedHit \<Rightarrow> string list" where
  "attachments mode ids h =
     (if mode = jaeger
      then map ref_spanID (filter (\<lambda>ref. refType ref = CHILD_OF \<and> ref_spanID ref \<in> ids) (refsOf h))
      else (case parentSpanId (source h) of
              None \<Rightarrow> []
            | Some p \<Rightarrow> if truthy p \<and> p \<in> ids \<and> spanId (source h) \<in> ids then [p] else []))"

text \<open>Whether the builder calls \<^verbatim>\<open>addRootSpan\<close> for the hit: in jaeger mode when it has no
  reference or a \<open>FOLLOWS_FROM\<close> reference, otherwise when the lookup of its parent finds
  nothing (neither a span nor an inherited property) and its id is not empty.\<close>

definition registersRoot :: "TraceAnalyticsMode \<Rightarrow> string set \<Rightarrow> ParsedHit \<Rightarrow> bool" where
  "registersRoot mode ids h =
     (if mode = jaeger
      then refsOf h = [] \<or> (\<exists>ref \<in> set (refsOf h). refType ref = FOLLOWS_FROM)
      else (case parentSpanId (source h) of
              None \<Rightarrow> True
            | Some p \<Rightarrow> \<not> (truthy p \<and> (p \<in> ids \<or> p \<in> set objectPrototypeKeys))) \<and>
           truthy (spanId (source h)) \<and> spanId (source h) \<in> ids)"

text \<open>What a hit appends to the children of the node \<open>q\<close>.\<close>

definition contrib :: "TraceAnalyticsMode \<Rightarrow> string set \<Rightarrow> ParsedHit \<Rightarrow> string \<Rightarrow> string list" where
  "contrib mode ids h q = replicate (count_list (attachments mode ids h) q) (hitId mode h)"

text \<open>What a hit does to the root list.\<close>

definition rootsStep :: "TraceAnalyticsMode \<Rightarrow> string set \<Rightarrow> ParsedHit \<Rightarrow> string list \<Rightarrow> string list" where
  "rootsStep mode ids h acc =
     (if registersRoot mode ids h \<and> hitId mode h \<notin> set acc then acc @ [hitId mode h] else acc)"

text \<open>The object that the first loop stores for a hit.\<close>

definition newNode :: "Conversions \<Rightarrow> TraceAnalyticsMode \<Rightarrow> ParsedHit \<Rightarrow> HierarchicalSpan" where
  "newNode cv mode h = \<lparr>hit = h, startTimeInNanos = getStartTimeInNanos cv h mode, children = []\<rparr>"

text \<open>The children, the hit and the start time of the node at a key.\<close>

definition childrenOf :: "SpanMap \<Rightarrow> string \<Rightarrow> string list" where
  "childrenOf m k = (case m k of None \<Rightarrow> [] | Some sp \<Rightarrow> children sp)"

definition hitOf :: "SpanMap \<Rightarrow> string \<Rightarrow> ParsedHit option" where
  "hitOf m k = map_option hit (m k)"

definition startOpt :: "SpanMap \<Rightarrow> string \<Rightarrow> real option" where
  "startOpt m k = map_option startTimeInNanos (m k)"



text \<open>The duration of a hit in milliseconds before the parser rounds it, and its start time in
  milliseconds.\<close>

definition rawDurationInMs :: "TraceAnalyticsMode \<Rightarrow> ParsedHit \<Rightarrow> real" where
  "rawDurationInMs mode h =
     (if mode = jaeger then microToMilliSec (duration (source h))
      else nanoToMilliSec (durationInNanos (source h)))"

definition startMs :: "Conversions \<Rightarrow> TraceAnalyticsMode \<Rightarrow> ParsedHit \<Rightarrow> real" where
  "startMs cv mode h = nanoToMilliSec (getStartTimeInNanos cv h mode)"

subsection \<open>The visit\<close>

text \<open>The order of the visit as the specification words it: the node, then its children in
  ascending order of start time, each with its own descendants, before the next sibling.
  The result is \<^const>\<open>None\<close> when the visit throws.\<close>

fun preorder :: "nat \<Rightarrow> SpanMap \<Rightarrow> TraceAnalyticsMode \<Rightarrow> string \<Rightarrow> string list option" where
  "preorder 0 m mode k = None"
| "preorder (Suc depth) m mode k =
     (case m k of
        None \<Rightarrow> None
      | Some sp \<Rightarrow>
          (case parseSpanHitData (hit sp) mode of
             Inl e \<Rightarrow> None
           | Inr p \<Rightarrow>
               map_option (\<lambda>blocks. k # concat blocks)
                 (those (map (\<lambda>c. preorder depth m mode c)
                    (sort_key (startOf m) (children sp))))))"

definition preorderAll ::
  "nat \<Rightarrow> SpanMap \<Rightarrow> TraceAnalyticsMode \<Rightarrow> string list \<Rightarrow> string list option" where
  "preorderAll depth m mode spans =
     map_option concat (those (map (\<lambda>c. preorder depth m mode c) (sort_key (startOf m) spans)))"

text \<open>What the visit of the node at a key adds to the chart, and the bar it adds.\<close>

definition emitKey ::
  "SpanMap \<Rightarrow> TraceAnalyticsMode \<Rightarrow> (string \<rightharpoonup> string) \<Rightarrow> real \<Rightarrow> string \<Rightarrow> Plot \<Rightarrow> Plot" where
  "emitKey m mode colorMap startTimeInMs k acc =
     (case m k of
        None \<Rightarrow> acc
      | Some sp \<Rightarrow>
          (case parseSpanHitData (hit sp) mode of
             Inl e \<Rightarrow> acc
           | Inr p \<Rightarrow> emitSpan colorMap startTimeInMs sp p acc))"

definition keyBars ::
  "SpanMap \<Rightarrow> TraceAnalyticsMode \<Rightarrow> (string \<rightharpoonup> string) \<Rightarrow> real \<Rightarrow> string \<Rightarrow> PlotData list" where
  "keyBars m mode colorMap startTimeInMs k =
     (case m k of
        None \<Rightarrow> []
      | Some sp \<Rightarrow>
          (case parseSpanHitData (hit sp) mode of
             Inl e \<Rightarrow> []
           | Inr p \<Rightarrow> [spanBar colorMap (nanoToMilliSec (startTimeInNanos sp) - startTimeInMs) p]))"

text \<open>The bar and the annotation that the visit of the node at a key adds, as a pair.\<close>

definition keyEmits ::
  "SpanMap \<Rightarrow> TraceAnalyticsMode \<Rightarrow> (string \<rightharpoonup> string) \<Rightarrow> real \<Rightarrow> string
     \<Rightarrow> (PlotData \<times> Annotation) list" where
  "keyEmits m mode colorMap startTimeInMs k =
     (case m k of
        None \<Rightarrow> []
      | Some sp \<Rightarrow>
          (case parseSpanHitData (hit sp) mode of
             Inl e \<Rightarrow> []
           | Inr p \<Rightarrow>
               [(spanBar colorMap (nanoToMilliSec (startTimeInNanos sp) - startTimeInMs) p,
                 spanBarLabel (nanoToMilliSec (startTimeInNanos sp) - startTimeInMs) p)]))"

text \<open>The end of a bar.\<close>

definition extent :: "PlotData \<Rightarrow> real" where
  "extent b = base b + bar_x b"


definition returns :: "error + 'a \<Rightarrow> bool" where
  "returns r = (case r of Inl e \<Rightarrow> False | Inr v \<Rightarrow> True)"



text \<open>The annotation of a bar after the visible range is set to start at \<open>visibleStart\<close>.\<close>

definition reprojected :: "real \<Rightarrow> PlotData \<Rightarrow> Annotation \<Rightarrow> Annotation" where
  "reprojected visibleStart b a =
     (if ann_x a < visibleStart \<and> visibleStart < base b + bar_x b
      then a\<lparr>ann_x := visibleStart\<rparr> else a)"

subsection \<open>Example inputs\<close>

text \<open>References and a jaeger document with the given id, start time and duration in
  microseconds and references; the properties of the other schema are absent.\<close>

definition childOf :: "string \<Rightarrow> SpanReference" where
  "childOf p = \<lparr>refType = CHILD_OF, ref_spanID = p\<rparr>"


definition jaegerHit :: "string \<Rightarrow> real \<Rightarrow> real \<Rightarrow> SpanReference list \<Rightarrow> ParsedHit" where
  "jaegerHit sid start dur refs =
     \<lparr>source = \<lparr>spanID = sid, spanId = '''', startTime = TNum start, duration = dur,
                durationInNanos = 0, process = Some \<lparr>proc_serviceName = Some ''frontend''\<rparr>,
                serviceName = None, operationName = Some ''HTTP GET'', name = None,
                tag = None, status_code = None, references = Some refs,
                parentSpanId = None\<rparr>\<rparr>"

definition exampleConversions :: Conversions where
  "exampleConversions = \<lparr>stringToNumber = (\<lambda>s. 0), parseIsoToNano = (\<lambda>t. 0)\<rparr>"

text \<open>A jaeger document without the property \<^verbatim>\<open>process\<close>.\<close>

definition noProcessHit :: ParsedHit where
  "noProcessHit =
     \<lparr>source = \<lparr>spanID = ''a'', spanId = '''', startTime = TNum 0, duration = 1000,
                durationInNanos = 0, process = None,
                serviceName = None, operationName = Some ''HTTP GET'', name = None,
                tag = None, status_code = None, references = None,
                parentSpanId = None\<rparr>\<rparr>"

text \<open>One span of 1234 microseconds.\<close>

definition roundingHits :: "ParsedHit list" where
  "roundingHits = [jaegerHit ''R'' 0 1234 []]"

text \<open>The scenario of section 8 of the specification: a root \<open>R\<close>, its child \<open>C1\<close> and a second
  root \<open>C2\<close>; the level of a span is its depth in the hierarchy.\<close>

definition nestedHits :: "ParsedHit list" where
  "nestedHits =
     [jaegerHit ''R'' 0 10000 [],
      jaegerHit ''C1'' 2000 5000 [childOf ''R''],
      jaegerHit ''C2'' 1000 1000 []]"


text \<open>One span with a negative duration.\<close>

definition negHits :: "ParsedHit list" where
  "negHits = [jaegerHit ''N'' 0 (- 5000) []]"


text \<open>A span whose only reference is a \<open>CHILD_OF\<close> reference to a span that is not in the set.\<close>

definition orphanHits :: "ParsedHit list" where
  "orphanHits =
     [jaegerHit ''R'' 0 10000 [],
      jaegerHit ''X'' 1000 5000 [childOf ''gone'']]"

text \<open>A child that starts before its parent.\<close>

definition skewHits :: "ParsedHit list" where
  "skewHits =
     [jaegerHit ''R'' 10 10000 [],
      jaegerHit ''C'' 5 1000 [childOf ''R'']]"



section \<open>Properties\<close>

subsection \<open>Empty input\<close>

lemma hitsToHierarchicalSpans_Nil:
  "hitsToHierarchicalSpans cv [] mode = (Map.empty, [])"
  by (simp add: hitsToHierarchicalSpans_def)

lemma createPlotlyData_Nil:
  "createPlotlyData depth m [] mode colorMap startTimeInMs =
     Inr \<lparr>data = [], annotations = [], maxX = 0\<rparr>"
  by (simp add: createPlotlyData_def)

text \<open>
  C9. For an empty hit array and every mode the hierarchy builder returns no root, the
  layout of no root returns no bar, no annotation and the maximum 0 for every start time
  and every stack depth, and the chart rebuilt by the panel is empty with the maximum 0;
  nothing is thrown.
\<close>

theorem C9_empty_input:
  "hitsToHierarchicalSpans cv [] mode = (Map.empty, []) \<and>
   createPlotlyData depth m [] mode colorMap startTimeInMs =
     Inr \<lparr>data = [], annotations = [], maxX = 0\<rparr> \<and>
   buildChartModel depth cv [] mode colorMap =
     Inr \<lparr>gantt = [], ganttAnnotations = [], ganttMax = 0, selectedRange = (0, 0)\<rparr>"
  by (simp add: hitsToHierarchicalSpans_Nil createPlotlyData_Nil buildChartModel_def)

subsection \<open>The hierarchy that the builder returns\<close>

lemma pushChild_props:
  "dom (spanMap (pushChild p c s)) = dom (spanMap s)"
  "hitOf (spanMap (pushChild p c s)) = hitOf (spanMap s)"
  "startOpt (spanMap (pushChild p c s)) = startOpt (spanMap s)"
  "rootSpans (pushChild p c s) = rootSpans s"
  "alreadyAddedRootSpans (pushChild p c s) = alreadyAddedRootSpans s"
  "childrenOf (spanMap (pushChild p c s)) q =
     childrenOf (spanMap s) q @ (if q = p \<and> p \<in> dom (spanMap s) then [c] else [])"
  by (auto simp: pushChild_def hitOf_def startOpt_def childrenOf_def fun_eq_iff split: option.splits)

lemma addRootSpan_props:
  "spanMap (addRootSpan x s) = spanMap s"
  "rootSpans (addRootSpan x s) = rootSpans s @ (if x \<in> alreadyAddedRootSpans s then [] else [x])"
  "alreadyAddedRootSpans (addRootSpan x s) = insert x (alreadyAddedRootSpans s)"
  by (auto simp: addRootSpan_def)

lemma linkReference_props:
  "dom (spanMap (linkReference x r s)) = dom (spanMap s)"
  "hitOf (spanMap (linkReference x r s)) = hitOf (spanMap s)"
  "startOpt (spanMap (linkReference x r s)) = startOpt (spanMap s)"
  "rootSpans (linkReference x r s) =
     rootSpans s @ (if refType r = FOLLOWS_FROM \<and> x \<notin> alreadyAddedRootSpans s then [x] else [])"
  "alreadyAddedRootSpans (linkReference x r s) =
     (if refType r = FOLLOWS_FROM then insert x (alreadyAddedRootSpans s) else alreadyAddedRootSpans s)"
  "childrenOf (spanMap (linkReference x r s)) q =
     childrenOf (spanMap s) q @
       (if refType r = CHILD_OF \<and> q = ref_spanID r \<and> q \<in> dom (spanMap s) then [x] else [])"
  by (auto simp: linkReference_def Let_def pushChild_props addRootSpan_props)

lemma fold_linkReference_props:
  "dom (spanMap (fold (linkReference x) refs s)) = dom (spanMap s)"
  "hitOf (spanMap (fold (linkReference x) refs s)) = hitOf (spanMap s)"
  "startOpt (spanMap (fold (linkReference x) refs s)) = startOpt (spanMap s)"
  "rootSpans (fold (linkReference x) refs s) =
     rootSpans s @ (if (\<exists>r \<in> set refs. refType r = FOLLOWS_FROM) \<and> x \<notin> alreadyAddedRootSpans s
                    then [x] else [])"
  "alreadyAddedRootSpans (fold (linkReference x) refs s) =
     (if (\<exists>r \<in> set refs. refType r = FOLLOWS_FROM) then insert x (alreadyAddedRootSpans s)
      else alreadyAddedRootSpans s)"
  "childrenOf (spanMap (fold (linkReference x) refs s)) q =
     childrenOf (spanMap s) q @
       replicate (length (filter (\<lambda>r. refType r = CHILD_OF \<and> ref_spanID r = q \<and>
                                   q \<in> dom (spanMap s)) refs)) x"
proof (induction refs arbitrary: s)
  case Nil
  { case 1 show ?case by simp }
  { case 2 show ?case by simp }
  { case 3 show ?case by simp }
  { case 4 show ?case by simp }
  { case 5 show ?case by simp }
  { case 6 show ?case by simp }
next
  case (Cons r refs)
  { case 1 show ?case by (simp add: Cons.IH linkReference_props) }
  { case 2 show ?case by (simp add: Cons.IH linkReference_props) }
  { case 3 show ?case by (simp add: Cons.IH linkReference_props) }
  { case 4 show ?case by (auto simp: Cons.IH linkReference_props) }
  { case 5 show ?case by (auto simp: Cons.IH linkReference_props) }
  { case 6 show ?case
      by (auto simp: Cons.IH linkReference_props replicate_app_Cons_same) }
qed

lemma count_attachments_jaeger:
  "count_list (map ref_spanID (filter (\<lambda>ref. refType ref = CHILD_OF \<and> ref_spanID ref \<in> ids) refs)) q =
   length (filter (\<lambda>r. refType r = CHILD_OF \<and> ref_spanID r = q \<and> q \<in> ids) refs)"
  by (induction refs) auto

lemma all_follows_iff:
  "refs = [] \<or> list_all (\<lambda>ref. refType ref = FOLLOWS_FROM) refs \<Longrightarrow>
   refs = [] \<or> (\<exists>r \<in> set refs. refType r = FOLLOWS_FROM)"
  by (cases refs) (auto simp: list_all_iff)

lemma linkHit_jaeger:
  "linkHit jaeger h s =
     (let s1 = fold (linkReference (spanID (source h))) (refsOf h) s
      in if refsOf h = [] \<or> list_all (\<lambda>ref. refType ref = FOLLOWS_FROM) (refsOf h)
         then addRootSpan (spanID (source h)) s1 else s1)"
  by (simp add: linkHit_def refsOf_def Let_def)

lemma registersRoot_jaeger:
  "registersRoot jaeger ids h \<longleftrightarrow>
     (refsOf h = [] \<or> list_all (\<lambda>ref. refType ref = FOLLOWS_FROM) (refsOf h)) \<or>
     (\<exists>r \<in> set (refsOf h). refType r = FOLLOWS_FROM)"
  using all_follows_iff[of "refsOf h"] by (auto simp: registersRoot_def)

lemma linkHit_jaeger_props:
  assumes "alreadyAddedRootSpans s = set (rootSpans s)"
  shows "dom (spanMap (linkHit jaeger h s)) = dom (spanMap s)"
    and "hitOf (spanMap (linkHit jaeger h s)) = hitOf (spanMap s)"
    and "startOpt (spanMap (linkHit jaeger h s)) = startOpt (spanMap s)"
    and "rootSpans (linkHit jaeger h s) = rootsStep jaeger (dom (spanMap s)) h (rootSpans s)"
    and "alreadyAddedRootSpans (linkHit jaeger h s) = set (rootSpans (linkHit jaeger h s))"
    and "childrenOf (spanMap (linkHit jaeger h s)) q =
           childrenOf (spanMap s) q @ contrib jaeger (dom (spanMap s)) h q"
proof -
  show "dom (spanMap (linkHit jaeger h s)) = dom (spanMap s)"
    by (simp add: linkHit_jaeger Let_def fold_linkReference_props addRootSpan_props)
  show "hitOf (spanMap (linkHit jaeger h s)) = hitOf (spanMap s)"
    by (simp add: linkHit_jaeger Let_def fold_linkReference_props addRootSpan_props)
  show "startOpt (spanMap (linkHit jaeger h s)) = startOpt (spanMap s)"
    by (simp add: linkHit_jaeger Let_def fold_linkReference_props addRootSpan_props)
  show r: "rootSpans (linkHit jaeger h s) = rootsStep jaeger (dom (spanMap s)) h (rootSpans s)"
    using assms
    by (simp add: linkHit_jaeger Let_def fold_linkReference_props addRootSpan_props
        rootsStep_def registersRoot_jaeger hitId_def)
  show "alreadyAddedRootSpans (linkHit jaeger h s) = set (rootSpans (linkHit jaeger h s))"
    unfolding r using assms
    by (simp add: linkHit_jaeger Let_def fold_linkReference_props addRootSpan_props
        rootsStep_def registersRoot_jaeger hitId_def) blast
  show "childrenOf (spanMap (linkHit jaeger h s)) q =
           childrenOf (spanMap s) q @ contrib jaeger (dom (spanMap s)) h q"
    by (simp add: linkHit_jaeger Let_def fold_linkReference_props addRootSpan_props
        contrib_def attachments_def hitId_def count_attachments_jaeger)
qed

lemma linkHit_dp:
  "mode \<noteq> jaeger \<Longrightarrow> spanId (source h) \<in> dom (spanMap s) \<Longrightarrow> linkHit mode h s =
     (case parentSpanId (source h) of
        None \<Rightarrow> (if truthy (spanId (source h)) then addRootSpan (spanId (source h)) s else s)
      | Some p \<Rightarrow>
          (if truthy p \<and> (p \<in> dom (spanMap s) \<or> p \<in> set objectPrototypeKeys)
           then pushChild p (spanId (source h)) s
           else (if truthy (spanId (source h)) then addRootSpan (spanId (source h)) s else s)))"
  by (auto simp: linkHit_def Let_def found_def split: option.splits)

lemma linkHit_dp_props:
  assumes "alreadyAddedRootSpans s = set (rootSpans s)" and "mode \<noteq> jaeger"
    and "hitId mode h \<in> dom (spanMap s)"
  shows "dom (spanMap (linkHit mode h s)) = dom (spanMap s)"
    and "hitOf (spanMap (linkHit mode h s)) = hitOf (spanMap s)"
    and "startOpt (spanMap (linkHit mode h s)) = startOpt (spanMap s)"
    and "rootSpans (linkHit mode h s) = rootsStep mode (dom (spanMap s)) h (rootSpans s)"
    and "alreadyAddedRootSpans (linkHit mode h s) = set (rootSpans (linkHit mode h s))"
    and "childrenOf (spanMap (linkHit mode h s)) q =
           childrenOf (spanMap s) q @ contrib mode (dom (spanMap s)) h q"
proof -
  from assms(2,3) have i: "spanId (source h) \<in> dom (spanMap s)" by (simp add: hitId_def)
  note d = linkHit_dp[OF assms(2) i]
  show "dom (spanMap (linkHit mode h s)) = dom (spanMap s)"
    by (cases "parentSpanId (source h)") (simp_all add: d addRootSpan_props pushChild_props)
  show "hitOf (spanMap (linkHit mode h s)) = hitOf (spanMap s)"
    by (cases "parentSpanId (source h)") (simp_all add: d addRootSpan_props pushChild_props)
  show "startOpt (spanMap (linkHit mode h s)) = startOpt (spanMap s)"
    by (cases "parentSpanId (source h)") (simp_all add: d addRootSpan_props pushChild_props)
  show r: "rootSpans (linkHit mode h s) = rootsStep mode (dom (spanMap s)) h (rootSpans s)"
    using assms(1,2) i
    by (cases "parentSpanId (source h)")
      (simp_all add: d addRootSpan_props pushChild_props rootsStep_def registersRoot_def hitId_def)
  show "alreadyAddedRootSpans (linkHit mode h s) = set (rootSpans (linkHit mode h s))"
    unfolding r using assms(1,2) i
    by (cases "parentSpanId (source h)")
      (auto simp add: d addRootSpan_props pushChild_props rootsStep_def registersRoot_def hitId_def)
  show "childrenOf (spanMap (linkHit mode h s)) q =
           childrenOf (spanMap s) q @ contrib mode (dom (spanMap s)) h q"
    using assms(2) i
    by (cases "parentSpanId (source h)")
      (auto simp add: d addRootSpan_props pushChild_props contrib_def attachments_def hitId_def)
qed

lemma linkHit_props:
  assumes "alreadyAddedRootSpans s = set (rootSpans s)"
    and "hitId mode h \<in> dom (spanMap s)"
  shows "dom (spanMap (linkHit mode h s)) = dom (spanMap s)"
    and "hitOf (spanMap (linkHit mode h s)) = hitOf (spanMap s)"
    and "startOpt (spanMap (linkHit mode h s)) = startOpt (spanMap s)"
    and "rootSpans (linkHit mode h s) = rootsStep mode (dom (spanMap s)) h (rootSpans s)"
    and "alreadyAddedRootSpans (linkHit mode h s) = set (rootSpans (linkHit mode h s))"
    and "childrenOf (spanMap (linkHit mode h s)) q =
           childrenOf (spanMap s) q @ contrib mode (dom (spanMap s)) h q"
  using linkHit_jaeger_props[OF assms(1)] linkHit_dp_props[OF assms(1) _ assms(2)]
  by (cases "mode = jaeger"; simp)+

lemma fold_linkHit_props:
  assumes "alreadyAddedRootSpans s = set (rootSpans s)"
    and "\<forall>h \<in> set hits. hitId mode h \<in> dom (spanMap s)"
  shows "dom (spanMap (fold (linkHit mode) hits s)) = dom (spanMap s)"
    and "hitOf (spanMap (fold (linkHit mode) hits s)) = hitOf (spanMap s)"
    and "startOpt (spanMap (fold (linkHit mode) hits s)) = startOpt (spanMap s)"
    and "rootSpans (fold (linkHit mode) hits s) =
           fold (rootsStep mode (dom (spanMap s))) hits (rootSpans s)"
    and "childrenOf (spanMap (fold (linkHit mode) hits s)) q =
           childrenOf (spanMap s) q @ concat (map (\<lambda>h. contrib mode (dom (spanMap s)) h q) hits)"
  using assms
proof (induction hits arbitrary: s)
  case Nil
  { case 1 show ?case by simp }
  { case 2 show ?case by simp }
  { case 3 show ?case by simp }
  { case 4 show ?case by simp }
  { case 5 show ?case by simp }
next
  case (Cons h hits)
  { case 1 then show ?case by (simp add: Cons.IH linkHit_props) }
  { case 2 then show ?case by (simp add: Cons.IH linkHit_props) }
  { case 3 then show ?case by (simp add: Cons.IH linkHit_props) }
  { case 4 then show ?case by (simp add: Cons.IH linkHit_props) }
  { case 5 then show ?case by (simp add: Cons.IH linkHit_props) }
qed

subsection \<open>The order of the visit\<close>

text \<open>Sorting again what is sorted changes nothing, so the order in which \<^verbatim>\<open>sort\<close> leaves
  an array of children does not matter to a later visit of the same node.\<close>

lemma sort_key_again: "sort_key f (sort_key f xs) = sort_key f xs"
  by (rule sort_key_id_if_sorted) (rule sorted_sort_key)

lemma forEach_those:
  assumes "\<And>c acc. case f c of None \<Rightarrow> (\<exists>e. g c acc = Inl e)
                    | Some ks \<Rightarrow> g c acc = Inr (fold em ks acc)"
  shows "case those (map f cs) of None \<Rightarrow> (\<exists>e. forEach g cs acc = Inl e)
         | Some bs \<Rightarrow> forEach g cs acc = Inr (fold em (concat bs) acc)"
proof (induction cs arbitrary: acc)
  case Nil
  show ?case by simp
next
  case (Cons c cs)
  show ?case
  proof (cases "f c")
    case None
    with assms[of c acc] show ?thesis by auto
  next
    case (Some ks)
    with assms[of c acc] have g: "g c acc = Inr (fold em ks acc)" by simp
    show ?thesis
      using Cons.IH[of "fold em ks acc"] Some g
      by (cases "those (map f cs)") auto
  qed
qed

lemma processSpan_preorder:
  "case preorder depth m mode k of
     None \<Rightarrow> (\<exists>e. processSpan depth m mode cm s k acc = Inl e)
   | Some ks \<Rightarrow> processSpan depth m mode cm s k acc = Inr (fold (emitKey m mode cm s) ks acc)"
proof (induction depth arbitrary: k acc)
  case 0
  show ?case by simp
next
  case (Suc depth)
  show ?case
  proof (cases "m k")
    case None
    then show ?thesis by simp
  next
    case (Some sp)
    show ?thesis
    proof (cases "parseSpanHitData (hit sp) mode")
      case (Inl e)
      with Some show ?thesis by simp
    next
      case (Inr p)
      let ?cs = "sort_key (startOf m) (children sp)"
      have em: "emitKey m mode cm s k acc = emitSpan cm s sp p acc"
        by (simp add: emitKey_def Some Inr)
      from forEach_those[where f = "\<lambda>c. preorder depth m mode c"
          and g = "\<lambda>c a. processSpan depth m mode cm s c a"
          and em = "emitKey m mode cm s", OF Suc.IH, of ?cs "emitSpan cm s sp p acc"]
      show ?thesis
        by (cases "those (map (\<lambda>c. preorder depth m mode c) ?cs)") (auto simp: Some Inr em)
    qed
  qed
qed

lemma createPlotlyData_preorder:
  "case preorderAll depth m mode spans of
     None \<Rightarrow> (\<exists>e. createPlotlyData depth m spans mode cm s = Inl e)
   | Some ks \<Rightarrow> createPlotlyData depth m spans mode cm s =
                 Inr (fold (emitKey m mode cm s) ks \<lparr>data = [], annotations = [], maxX = 0\<rparr>)"
  using forEach_those[where f = "\<lambda>c. preorder depth m mode c"
          and g = "\<lambda>c a. processSpan depth m mode cm s c a"
          and em = "emitKey m mode cm s", OF processSpan_preorder,
          of "sort_key (startOf m) spans" "\<lparr>data = [], annotations = [], maxX = 0\<rparr>"]
  by (cases "those (map (\<lambda>c. preorder depth m mode c) (sort_key (startOf m) spans))")
     (auto simp: createPlotlyData_def preorderAll_def)

lemma fold_indexHit_snoc:
  "fold (indexHit cv mode) (hits @ [h]) m0 =
     (fold (indexHit cv mode) hits m0)(hitId mode h \<mapsto> newNode cv mode h)"
  by (simp add: indexHit_def hitId_def newNode_def)

lemma dom_fold_indexHit:
  "dom (fold (indexHit cv mode) hits Map.empty) = set (map (hitId mode) hits)"
proof (induction hits rule: rev_induct)
  case Nil
  show ?case by simp
next
  case (snoc h hits)
  have "dom (fold (indexHit cv mode) (hits @ [h]) Map.empty) =
          insert (hitId mode h) (dom (fold (indexHit cv mode) hits Map.empty))"
    by (simp only: fold_indexHit_snoc dom_fun_upd option.simps if_False)
  with snoc.IH show ?case by simp
qed

lemma fold_indexHit_Some:
  "fold (indexHit cv mode) hits Map.empty k = Some sp \<Longrightarrow>
   \<exists>h \<in> set hits. hitId mode h = k \<and> sp = newNode cv mode h"
proof (induction hits rule: rev_induct)
  case Nil
  then show ?case by simp
next
  case (snoc h hits)
  show ?case
  proof (cases "k = hitId mode h")
    case True
    with snoc.prems show ?thesis unfolding fold_indexHit_snoc by auto
  next
    case False
    with snoc.prems have "fold (indexHit cv mode) hits Map.empty k = Some sp"
      unfolding fold_indexHit_snoc by simp
    from snoc.IH[OF this] show ?thesis by auto
  qed
qed

lemma fold_indexHit_distinct:
  assumes "distinct (map (hitId mode) hits)" and "h \<in> set hits"
  shows "fold (indexHit cv mode) hits Map.empty (hitId mode h) = Some (newNode cv mode h)"
proof -
  from assms(2) have "hitId mode h \<in> set (map (hitId mode) hits)" by simp
  then have "hitId mode h \<in> dom (fold (indexHit cv mode) hits Map.empty)"
    by (simp only: dom_fold_indexHit)
  then obtain sp where sp: "fold (indexHit cv mode) hits Map.empty (hitId mode h) = Some sp"
    by auto
  from fold_indexHit_Some[OF sp] obtain h' where
    h': "h' \<in> set hits" "hitId mode h' = hitId mode h" "sp = newNode cv mode h'" by auto
  from assms h'(1,2) have "h' = h" by (meson distinct_map inj_onD)
  with sp h'(3) show ?thesis by simp
qed

text \<open>What the builder returns, in terms of the hits.\<close>

lemma build_facts:
  assumes "hitsToHierarchicalSpans cv hits mode = (m, roots)"
  defines "ids \<equiv> set (map (hitId mode) hits)"
  shows "dom m = ids"
    and "hitOf m k = Some h \<Longrightarrow> h \<in> set hits \<and> hitId mode h = k"
    and "m k = Some sp \<Longrightarrow> startTimeInNanos sp = getStartTimeInNanos cv (hit sp) mode"
    and "roots = fold (rootsStep mode ids) hits []"
    and "childrenOf m q = concat (map (\<lambda>h. contrib mode ids h q) hits)"
    and "distinct (map (hitId mode) hits) \<Longrightarrow> h \<in> set hits \<Longrightarrow> hitOf m (hitId mode h) = Some h"
proof -
  let ?m0 = "fold (indexHit cv mode) hits Map.empty"
  let ?s0 = "\<lparr>spanMap = ?m0, rootSpans = [], alreadyAddedRootSpans = {}\<rparr>"
  have inv: "alreadyAddedRootSpans ?s0 = set (rootSpans ?s0)" by simp
  have m: "m = spanMap (fold (linkHit mode) hits ?s0)"
    and r: "roots = rootSpans (fold (linkHit mode) hits ?s0)"
    using assms(1) by (simp_all add: hitsToHierarchicalSpans_def Let_def)
  have d0: "dom (spanMap ?s0) = ids" by (simp add: ids_def dom_fold_indexHit del: set_map)
  have "\<forall>h \<in> set hits. hitId mode h \<in> dom (spanMap ?s0)" unfolding d0 ids_def by simp
  note f = fold_linkHit_props[OF inv this]
  show "dom m = ids" using f(1) d0 m by simp
  have ho: "hitOf m = hitOf ?m0" using f(2) m by simp
  have so: "startOpt m = startOpt ?m0" using f(3) m by simp
  show "hitOf m k = Some h \<Longrightarrow> h \<in> set hits \<and> hitId mode h = k"
    unfolding ho by (auto simp: hitOf_def newNode_def dest!: fold_indexHit_Some)
  show "m k = Some sp \<Longrightarrow> startTimeInNanos sp = getStartTimeInNanos cv (hit sp) mode"
  proof -
    assume a: "m k = Some sp"
    have "hitOf ?m0 k = Some (hit sp)" using a ho[symmetric] by (simp add: hitOf_def)
    then obtain sp0 where sp0: "?m0 k = Some sp0" "hit sp0 = hit sp"
      by (auto simp: hitOf_def)
    have "startOpt ?m0 k = Some (startTimeInNanos sp)"
      using a so[symmetric] by (simp add: startOpt_def)
    with sp0 have st: "startTimeInNanos sp0 = startTimeInNanos sp" by (simp add: startOpt_def)
    from fold_indexHit_Some[OF sp0(1)] sp0(2) st show ?thesis
      by (auto simp: newNode_def)
  qed
  show "roots = fold (rootsStep mode ids) hits []"
    using f(4) d0 r by simp
  have c0: "childrenOf ?m0 q = []"
    by (auto simp: childrenOf_def newNode_def split: option.splits dest!: fold_indexHit_Some)
  show "childrenOf m q = concat (map (\<lambda>h. contrib mode ids h q) hits)"
    using f(5)[of q] d0 c0 m by simp
  show "distinct (map (hitId mode) hits) \<Longrightarrow> h \<in> set hits \<Longrightarrow> hitOf m (hitId mode h) = Some h"
    unfolding ho by (simp add: hitOf_def fold_indexHit_distinct newNode_def)
qed

lemma emitKey_props:
  "data (emitKey m mode cm s k acc) = data acc @ keyBars m mode cm s k"
  "map ann_x (annotations (emitKey m mode cm s k acc)) =
     map ann_x (annotations acc) @ map base (keyBars m mode cm s k)"
  "map ann_y (annotations (emitKey m mode cm s k acc)) =
     map ann_y (annotations acc) @ map bar_y (keyBars m mode cm s k)"
  "maxX (emitKey m mode cm s k acc) = fold max (map extent (keyBars m mode cm s k)) (maxX acc)"
  by (auto simp: emitKey_def keyBars_def emitSpan_def Let_def spanBar_def spanBarLabel_def
      extent_def max.commute split: option.splits sum.splits)

lemma fold_emitKey_props:
  "data (fold (emitKey m mode cm s) ks acc) = data acc @ concat (map (keyBars m mode cm s) ks)"
  "map ann_x (annotations (fold (emitKey m mode cm s) ks acc)) =
     map ann_x (annotations acc) @ map base (concat (map (keyBars m mode cm s) ks))"
  "map ann_y (annotations (fold (emitKey m mode cm s) ks acc)) =
     map ann_y (annotations acc) @ map bar_y (concat (map (keyBars m mode cm s) ks))"
  "maxX (fold (emitKey m mode cm s) ks acc) =
     fold max (map extent (concat (map (keyBars m mode cm s) ks))) (maxX acc)"
proof (induction ks arbitrary: acc)
  case Nil
  { case 1 show ?case by simp }
  { case 2 show ?case by simp }
  { case 3 show ?case by simp }
  { case 4 show ?case by simp }
next
  case (Cons k ks)
  { case 1 show ?case by (simp add: Cons.IH emitKey_props) }
  { case 2 show ?case by (simp add: Cons.IH emitKey_props) }
  { case 3 show ?case by (simp add: Cons.IH emitKey_props) }
  { case 4 show ?case by (simp add: Cons.IH emitKey_props) }
qed

subsection \<open>Children lists\<close>


lemma sum_list_none:
  "\<forall>h' \<in> set xs. f h' \<noteq> x \<Longrightarrow> (\<Sum>h'\<leftarrow>xs. if f h' = x then g h' else 0) = (0 :: nat)"
  by simp









lemma those_eq_Some: "those xs = Some ys \<longleftrightarrow> xs = map Some ys"
proof (induction xs arbitrary: ys)
  case Nil
  show ?case by auto
next
  case (Cons x xs)
  show ?case by (cases x; cases ys) (auto simp: Cons.IH)
qed

lemma those_map_Some:
  assumes "those (map f cs) = Some bs"
  shows "length bs = length cs" and "i < length cs \<Longrightarrow> f (cs ! i) = Some (bs ! i)"
proof -
  from assms have e: "map f cs = map Some bs" by (simp add: those_eq_Some)
  then show l: "length bs = length cs" by (metis length_map)
  assume "i < length cs"
  with e l show "f (cs ! i) = Some (bs ! i)" by (metis nth_map)
qed


lemma preorder_Suc_Some:
  assumes "preorder (Suc d) m mode k = Some ks"
  obtains sp p blocks where "m k = Some sp" "parseSpanHitData (hit sp) mode = Inr p"
    "those (map (\<lambda>c. preorder d m mode c) (sort_key (startOf m) (children sp))) = Some blocks"
    "ks = k # concat blocks"
  using assms by (auto split: option.splits sum.splits)

lemma preorder_keys:
  "preorder d m mode k = Some ks \<Longrightarrow> set ks \<subseteq> insert k (\<Union>q. set (childrenOf m q))"
proof (induction d arbitrary: k ks)
  case 0
  then show ?case by simp
next
  case (Suc d)
  from Suc.prems obtain sp p blocks where
    sp: "m k = Some sp" and
    bl: "those (map (\<lambda>c. preorder d m mode c) (sort_key (startOf m) (children sp))) = Some blocks"
    and ks: "ks = k # concat blocks"
    by (rule preorder_Suc_Some)
  let ?cs = "sort_key (startOf m) (children sp)"
  have cs: "set ?cs \<subseteq> (\<Union>q. set (childrenOf m q))"
    using sp by (auto simp: childrenOf_def intro!: exI[of _ k])
  have "set b \<subseteq> (\<Union>q. set (childrenOf m q))" if "b \<in> set blocks" for b
  proof -
    from that obtain i where i: "i < length blocks" "b = blocks ! i"
      by (auto simp: in_set_conv_nth)
    with those_map_Some[OF bl] have "preorder d m mode (?cs ! i) = Some b" "i < length ?cs"
      by auto
    from Suc.IH[OF this(1)] cs this(2) show ?thesis
      by (metis (no_types, lifting) insert_subset nth_mem subset_iff)
  qed
  with ks show ?case by auto
qed

lemma preorderAll_keys:
  assumes "preorderAll d m mode spans = Some ks"
  shows "set ks \<subseteq> set spans \<union> (\<Union>q. set (childrenOf m q))"
proof -
  let ?cs = "sort_key (startOf m) spans"
  from assms obtain blocks where
    bl: "those (map (\<lambda>c. preorder d m mode c) ?cs) = Some blocks" and ks: "ks = concat blocks"
    by (auto simp: preorderAll_def)
  have "set b \<subseteq> set spans \<union> (\<Union>q. set (childrenOf m q))" if "b \<in> set blocks" for b
  proof -
    from that obtain i where i: "i < length blocks" "b = blocks ! i"
      by (auto simp: in_set_conv_nth)
    with those_map_Some[OF bl] have p: "preorder d m mode (?cs ! i) = Some b" "i < length ?cs"
      by auto
    then have "?cs ! i \<in> set spans" by (metis nth_mem set_sort)
    with preorder_keys[OF p(1)] show ?thesis by auto
  qed
  with ks show ?thesis by auto
qed

subsection \<open>Spans that are dropped, and the parser\<close>

lemma set_fold_rootsStep:
  "set (fold (rootsStep mode ids) hits acc) =
     set acc \<union> {hitId mode h | h. h \<in> set hits \<and> registersRoot mode ids h}"
  by (induction hits arbitrary: acc) (auto simp: rootsStep_def)

lemma distinct_fold_rootsStep:
  "distinct acc \<Longrightarrow> distinct (fold (rootsStep mode ids) hits acc)"
  by (induction hits arbitrary: acc) (auto simp: rootsStep_def)

lemma build_roots:
  assumes "hitsToHierarchicalSpans cv hits mode = (m, roots)"
  shows "set roots = {hitId mode h | h. h \<in> set hits \<and>
                        registersRoot mode (set (map (hitId mode) hits)) h}"
    and "distinct roots"
  by (simp_all add: build_facts(4)[OF assms] set_fold_rootsStep distinct_fold_rootsStep
      del: set_map)

lemma set_contrib:
  "x \<in> set (contrib mode ids h q) \<Longrightarrow> x = hitId mode h \<and> q \<in> set (attachments mode ids h)"
  by (auto simp: contrib_def count_list_0_iff)

lemma build_children_mem:
  assumes "hitsToHierarchicalSpans cv hits mode = (m, roots)" and "x \<in> set (childrenOf m q)"
  shows "\<exists>h \<in> set hits. hitId mode h = x \<and>
           q \<in> set (attachments mode (set (map (hitId mode) hits)) h)"
  using assms(2) unfolding build_facts(5)[OF assms(1)]
  by (auto dest!: set_contrib)

lemma parseSpanHitData_Inr:
  assumes "parseSpanHitData h mode = Inr p"
  shows "hd_spanId p = hitId mode h" and "hd_durationInMs p = round2 (rawDurationInMs mode h)"
  using assms
  by (auto simp: parseSpanHitData_def Let_def hitId_def rawDurationInMs_def
      split: if_splits option.splits)


lemma keyBars_cases:
  assumes "b \<in> set (keyBars m mode cm s k)"
  obtains sp p where "m k = Some sp" "parseSpanHitData (hit sp) mode = Inr p"
    "b = spanBar cm (nanoToMilliSec (startTimeInNanos sp) - s) p"
proof (cases "m k")
  case None
  with assms show ?thesis by (simp add: keyBars_def)
next
  case (Some sp)
  show ?thesis
  proof (cases "parseSpanHitData (hit sp) mode")
    case (Inl e)
    with Some assms show ?thesis by (simp add: keyBars_def)
  next
    case (Inr p)
    with Some assms have "b = spanBar cm (nanoToMilliSec (startTimeInNanos sp) - s) p"
      by (simp add: keyBars_def)
    with Some Inr that show ?thesis by blast
  qed
qed

lemma build_keyBars_y:
  assumes "hitsToHierarchicalSpans cv hits mode = (m, roots)"
    and "b \<in> set (keyBars m mode cm s k)"
  shows "bar_y b = k"
proof -
  from assms(2) obtain sp p where sp: "m k = Some sp"
    and p: "parseSpanHitData (hit sp) mode = Inr p"
    and b: "b = spanBar cm (nanoToMilliSec (startTimeInNanos sp) - s) p"
    by (rule keyBars_cases)
  from sp have "hitOf m k = Some (hit sp)" by (simp add: hitOf_def)
  from build_facts(2)[OF assms(1) this] have "hitId mode (hit sp) = k" by simp
  with parseSpanHitData_Inr(1)[OF p] b show ?thesis by (simp add: spanBar_def)
qed

lemma createPlotlyData_Inr:
  assumes "createPlotlyData depth m spans mode cm s = Inr res"
  obtains ks where "preorderAll depth m mode spans = Some ks"
    "res = fold (emitKey m mode cm s) ks \<lparr>data = [], annotations = [], maxX = 0\<rparr>"
  using assms createPlotlyData_preorder[where depth = depth and m = m and mode = mode
      and spans = spans and cm = cm and s = s]
  by (cases "preorderAll depth m mode spans") auto

lemma createPlotlyData_data:
  assumes "createPlotlyData depth m spans mode cm s = Inr res"
  obtains ks where "preorderAll depth m mode spans = Some ks"
    "data res = concat (map (keyBars m mode cm s) ks)"
  using createPlotlyData_Inr[OF assms] by (metis fold_emitKey_props(1) append_Nil Plot.select_convs(1))

lemma build_bar_keys:
  assumes "hitsToHierarchicalSpans cv hits mode = (m, roots)"
    and "createPlotlyData depth m roots mode cm s = Inr res"
  shows "set (map bar_y (data res)) \<subseteq> set roots \<union> (\<Union>q. set (childrenOf m q))"
proof -
  from assms(2) obtain ks where ks: "preorderAll depth m mode roots = Some ks"
    and d: "data res = concat (map (keyBars m mode cm s) ks)"
    by (rule createPlotlyData_data)
  have "bar_y b \<in> set ks" if "b \<in> set (data res)" for b
  proof -
    from that d obtain k where "k \<in> set ks" "b \<in> set (keyBars m mode cm s k)" by auto
    with build_keyBars_y[OF assms(1) this(2)] show ?thesis by simp
  qed
  with preorderAll_keys[OF ks] show ?thesis by auto
qed

text \<open>The chart that the panel holds is empty when there is no root and is the layout of
  the roots, relative to the earliest start of a root, otherwise.\<close>

lemma Math_min_Some: "xs \<noteq> [] \<Longrightarrow> Math_min xs = Some (Min (set xs))"
proof (cases xs)
  case Nil
  assume "xs \<noteq> []"
  with Nil show ?thesis by simp
next
  case (Cons x ys)
  have "Math_min (x # ys) = Some (Min (set (x # ys)))"
    by (simp only: Math_min.simps Min.set_eq_fold)
  with Cons show ?thesis by simp
qed

lemma buildChartModel_Inr:
  assumes "buildChartModel depth cv hits mode cm = Inr st"
    and "hitsToHierarchicalSpans cv hits mode = (m, roots)"
  obtains "roots = []" "gantt st = []" "ganttAnnotations st = []" "ganttMax st = 0"
  | res where "roots \<noteq> []"
      "createPlotlyData depth m roots mode cm
         (Min (set (map (\<lambda>k. nanoToMilliSec (startOf m k)) roots))) = Inr res"
      "gantt st = data res" "ganttAnnotations st = annotations res" "ganttMax st = maxX res"
proof (cases "roots = []")
  case True
  with assms have "gantt st = []" "ganttAnnotations st = []" "ganttMax st = 0"
    by (auto simp: buildChartModel_def)
  with True that(1) show ?thesis by blast
next
  case False
  then have mm: "Math_min (map (\<lambda>k. nanoToMilliSec (startOf m k)) roots) =
      Some (Min (set (map (\<lambda>k. nanoToMilliSec (startOf m k)) roots)))"
    by (intro Math_min_Some) simp
  from assms mm obtain res where
    "createPlotlyData depth m roots mode cm
         (Min (set (map (\<lambda>k. nanoToMilliSec (startOf m k)) roots))) = Inr res"
    "gantt st = data res" "ganttAnnotations st = annotations res" "ganttMax st = maxX res"
    by (auto simp: buildChartModel_def split: sum.splits)
  with False that(2) show ?thesis by blast
qed

text \<open>Every reference that the builder stores, in the root list or in a children array,
  is a reference to an object of \<^verbatim>\<open>spanMap\<close>.\<close>

lemma build_references_resolve:
  assumes "hitsToHierarchicalSpans cv hits mode = (m, roots)"
  shows "set roots \<subseteq> dom m" and "set (childrenOf m q) \<subseteq> dom m"
proof -
  have d: "dom m = set (map (hitId mode) hits)" by (rule build_facts(1)[OF assms])
  show "set roots \<subseteq> dom m"
    unfolding d build_roots(1)[OF assms] by auto
  show "set (childrenOf m q) \<subseteq> dom m"
    unfolding d using build_children_mem[OF assms] by fastforce
qed

text \<open>
  C10. In jaeger mode, with distinct span ids, a hit whose reference list is not empty,
  holds no \<open>FOLLOWS_FROM\<close> reference and whose \<open>CHILD_OF\<close> targets are all absent from the
  hit set is no root and no child of any node, and its id is the row of no bar that the
  layout of the roots or the panel emits.
\<close>

theorem C10_unresolved_span_dropped:
  assumes "hitsToHierarchicalSpans cv hits jaeger = (m, roots)"
    and "distinct (map (hitId jaeger) hits)" and "h \<in> set hits"
    and "refsOf h \<noteq> []"
    and "\<forall>ref \<in> set (refsOf h). refType ref \<noteq> FOLLOWS_FROM"
    and "\<forall>ref \<in> set (refsOf h). refType ref = CHILD_OF \<longrightarrow>
           ref_spanID ref \<notin> set (map (hitId jaeger) hits)"
  shows "spanID (source h) \<notin> set roots \<and>
         (\<forall>q. spanID (source h) \<notin> set (childrenOf m q)) \<and>
         (\<forall>depth colorMap startTimeInMs res.
            createPlotlyData depth m roots jaeger colorMap startTimeInMs = Inr res \<longrightarrow>
            spanID (source h) \<notin> set (map bar_y (data res))) \<and>
         (\<forall>depth colorMap st.
            buildChartModel depth cv hits jaeger colorMap = Inr st \<longrightarrow>
            spanID (source h) \<notin> set (map bar_y (gantt st)))"
proof -
  have hid: "hitId jaeger = (\<lambda>h. spanID (source h))" by (auto simp: hitId_def)
  let ?ids = "set (map (hitId jaeger) hits)"
  have uniq: "h' = h" if "h' \<in> set hits" "hitId jaeger h' = hitId jaeger h" for h'
    using that assms(2,3) unfolding hid by (meson distinct_map inj_onD)
  have nr: "\<not> registersRoot jaeger ?ids h"
    using assms(4,5) by (auto simp: registersRoot_def)
  have na: "attachments jaeger ?ids h = []"
    using assms(6) by (auto simp: attachments_def filter_empty_conv)
  have r: "spanID (source h) \<notin> set roots"
  proof
    assume "spanID (source h) \<in> set roots"
    then obtain h' where "h' \<in> set hits" "hitId jaeger h' = hitId jaeger h"
      "registersRoot jaeger ?ids h'"
      unfolding build_roots(1)[OF assms(1)] by (auto simp: hid)
    with uniq nr show False by blast
  qed
  have c: "spanID (source h) \<notin> set (childrenOf m q)" for q
  proof
    assume "spanID (source h) \<in> set (childrenOf m q)"
    from build_children_mem[OF assms(1) this] obtain h' where
      "h' \<in> set hits" "hitId jaeger h' = hitId jaeger h" "q \<in> set (attachments jaeger ?ids h')"
      by (auto simp: hid)
    with uniq[of h'] na show False by auto
  qed
  have l: "spanID (source h) \<notin> set (map bar_y (data res))"
    if "createPlotlyData depth m roots jaeger colorMap startTimeInMs = Inr res"
    for depth colorMap startTimeInMs res
    using build_bar_keys[OF assms(1) that] r c by blast
  have "spanID (source h) \<notin> set (map bar_y (gantt st))"
    if "buildChartModel depth cv hits jaeger colorMap = Inr st" for depth colorMap st
    using that assms(1)
  proof (rule buildChartModel_Inr)
    assume "gantt st = []"
    then show ?thesis by simp
  next
    fix res
    assume "createPlotlyData depth m roots jaeger colorMap
         (Min (set (map (\<lambda>k. nanoToMilliSec (startOf m k)) roots))) = Inr res"
      and "gantt st = data res"
    with l show ?thesis by metis
  qed
  with r c l show ?thesis by blast
qed

text \<open>The statement of C10 at two hits, the second with a single dangling \<open>CHILD_OF\<close>
  reference.\<close>

theorem C10_unresolved_span_dropped_witness:
  "distinct (map (hitId jaeger) orphanHits) \<and>
   jaegerHit ''X'' 1000 5000 [childOf ''gone''] \<in> set orphanHits \<and>
   refsOf (jaegerHit ''X'' 1000 5000 [childOf ''gone'']) = [childOf ''gone''] \<and>
   spanID (source (jaegerHit ''X'' 1000 5000 [childOf ''gone''])) \<notin>
     set (snd (hitsToHierarchicalSpans exampleConversions orphanHits jaeger))"
proof -
  let ?h = "jaegerHit ''X'' 1000 5000 [childOf ''gone'']"
  have e: "hitsToHierarchicalSpans exampleConversions orphanHits jaeger =
      (fst (hitsToHierarchicalSpans exampleConversions orphanHits jaeger),
       snd (hitsToHierarchicalSpans exampleConversions orphanHits jaeger))"
    by simp
  have d: "distinct (map (hitId jaeger) orphanHits)"
    by (simp add: orphanHits_def hitId_def jaegerHit_def)
  have i: "?h \<in> set orphanHits" by (simp add: orphanHits_def)
  have r: "refsOf ?h = [childOf ''gone'']" by (simp add: refsOf_def jaegerHit_def)
  have n: "refsOf ?h \<noteq> []" by (simp add: r)
  have f: "\<forall>ref \<in> set (refsOf ?h). refType ref \<noteq> FOLLOWS_FROM"
    unfolding r by (simp add: childOf_def)
  have c: "\<forall>ref \<in> set (refsOf ?h). refType ref = CHILD_OF \<longrightarrow>
           ref_spanID ref \<notin> set (map (hitId jaeger) orphanHits)"
    unfolding r by (simp add: childOf_def orphanHits_def hitId_def jaegerHit_def)
  from C10_unresolved_span_dropped[OF e d i n f c] d i r show ?thesis by blast
qed

text \<open>
  C3. The parser throws for a jaeger document without the property \<open>process\<close>: it reads
  \<open>serviceName\<close> from the result of the lookup, which is undefined.
\<close>

theorem C3_parse_without_process_throws:
  "parseSpanHitData noProcessHit jaeger = Inl TypeError"
  by (simp add: parseSpanHitData_def noProcessHit_def)

subsection \<open>The numbers of the layout\<close>

lemma returns_projr: "returns r \<Longrightarrow> r = Inr (projr r)"
  by (cases r) (simp_all add: returns_def)

lemma createPlotlyData_bars:
  assumes "createPlotlyData depth m spans mode cm s = Inr res" and "b \<in> set (data res)"
  obtains k sp p where "m k = Some sp" "parseSpanHitData (hit sp) mode = Inr p"
    "b = spanBar cm (nanoToMilliSec (startTimeInNanos sp) - s) p"
proof -
  from assms(1) obtain ks where "data res = concat (map (keyBars m mode cm s) ks)"
    by (rule createPlotlyData_data)
  with assms(2) obtain k where "b \<in> set (keyBars m mode cm s k)" by auto
  then show ?thesis by (rule keyBars_cases) (rule that)
qed

lemma createPlotlyData_aligned:
  assumes "createPlotlyData depth m spans mode cm s = Inr res"
  shows "map ann_x (annotations res) = map base (data res)"
    and "map ann_y (annotations res) = map bar_y (data res)"
    and "maxX res = fold max (map extent (data res)) 0"
proof -
  from assms obtain ks where
    r: "res = fold (emitKey m mode cm s) ks \<lparr>data = [], annotations = [], maxX = 0\<rparr>"
    by (rule createPlotlyData_Inr)
  show "map ann_x (annotations res) = map base (data res)"
    unfolding r by (simp add: fold_emitKey_props)
  show "map ann_y (annotations res) = map bar_y (data res)"
    unfolding r by (simp add: fold_emitKey_props)
  show "maxX res = fold max (map extent (data res)) 0"
    unfolding r by (simp add: fold_emitKey_props)
qed

lemma fold_max_Max: "fold max xs (a :: real) = Max (insert a (set xs))"
proof -
  have "Max (set (a # xs)) = fold max xs a" by (rule Max.set_eq_fold)
  then show ?thesis by simp
qed

lemma emitKey_pairs:
  "data (emitKey m mode cm s k acc) = data acc @ map fst (keyEmits m mode cm s k)"
  "annotations (emitKey m mode cm s k acc) = annotations acc @ map snd (keyEmits m mode cm s k)"
  by (auto simp: emitKey_def keyEmits_def emitSpan_def Let_def split: option.splits sum.splits)

lemma fold_emitKey_pairs:
  "data (fold (emitKey m mode cm s) ks acc) =
     data acc @ map fst (concat (map (keyEmits m mode cm s) ks))"
  "annotations (fold (emitKey m mode cm s) ks acc) =
     annotations acc @ map snd (concat (map (keyEmits m mode cm s) ks))"
proof (induction ks arbitrary: acc)
  case Nil
  { case 1 show ?case by simp }
  { case 2 show ?case by simp }
next
  case (Cons k ks)
  { case 1 show ?case by (simp add: Cons.IH emitKey_pairs) }
  { case 2 show ?case by (simp add: Cons.IH emitKey_pairs) }
qed

lemma createPlotlyData_pairs:
  assumes "createPlotlyData depth m spans mode cm s = Inr res"
  obtains ks where "preorderAll depth m mode spans = Some ks"
    "zip (data res) (annotations res) = concat (map (keyEmits m mode cm s) ks)"
    "length (annotations res) = length (data res)"
proof -
  from assms obtain ks where ks: "preorderAll depth m mode spans = Some ks"
    and r: "res = fold (emitKey m mode cm s) ks \<lparr>data = [], annotations = [], maxX = 0\<rparr>"
    by (rule createPlotlyData_Inr)
  let ?es = "concat (map (keyEmits m mode cm s) ks)"
  have d: "data res = map fst ?es" and a: "annotations res = map snd ?es"
    unfolding r by (simp_all add: fold_emitKey_pairs)
  have "zip (data res) (annotations res) = ?es" unfolding d a by (rule zip_map_fst_snd)
  moreover have "length (annotations res) = length (data res)" unfolding d a by simp
  ultimately show ?thesis using ks by (rule that[rotated])
qed

lemma keyEmits_cases:
  assumes "e \<in> set (keyEmits m mode cm s k)"
  obtains sp p where "m k = Some sp" "parseSpanHitData (hit sp) mode = Inr p"
    "e = (spanBar cm (nanoToMilliSec (startTimeInNanos sp) - s) p,
          spanBarLabel (nanoToMilliSec (startTimeInNanos sp) - s) p)"
proof (cases "m k")
  case None
  with assms show ?thesis by (simp add: keyEmits_def)
next
  case (Some sp)
  show ?thesis
  proof (cases "parseSpanHitData (hit sp) mode")
    case (Inl e')
    with Some assms show ?thesis by (simp add: keyEmits_def)
  next
    case (Inr p)
    with Some assms have "e = (spanBar cm (nanoToMilliSec (startTimeInNanos sp) - s) p,
          spanBarLabel (nanoToMilliSec (startTimeInNanos sp) - s) p)"
      by (simp add: keyEmits_def)
    with Some Inr that show ?thesis by blast
  qed
qed

text \<open>\<^verbatim>\<open>toFixed(2)\<close> of a duration that the parser has rounded prints the hundredths that the
  parser rounded to: it rounds nothing further.\<close>

lemma toFixed2_round2:
  "toFixed2 (round2 x) =
     (if \<lfloor>x * 100 + 1 / 2\<rfloor> < 0 then ''-'' else '''') @
     showNat (nat \<bar>\<lfloor>x * 100 + 1 / 2\<rfloor>\<bar> div 100) @ ''.'' @
     [digit (nat \<bar>\<lfloor>x * 100 + 1 / 2\<rfloor>\<bar> div 10), digit (nat \<bar>\<lfloor>x * 100 + 1 / 2\<rfloor>\<bar>)]"
proof -
  define k where "k = \<lfloor>x * 100 + 1 / 2\<rfloor>"
  have r: "round2 x = of_int k / 100" by (simp add: round2_def k_def)
  have "\<bar>round2 x\<bar> * 100 + 1 / 2 = of_int \<bar>k\<bar> + 1 / 2" by (simp add: r)
  then have "\<lfloor>\<bar>round2 x\<bar> * 100 + 1 / 2\<rfloor> = \<bar>k\<bar>" by (simp only:) linarith
  moreover have "round2 x < 0 \<longleftrightarrow> k < 0" by (simp add: r)
  ultimately show ?thesis
    unfolding toFixed2_def Let_def k_def[symmetric] by simp
qed

text \<open>
  C4, as amended. The layout emits as many annotations as bars, the annotation at an index
  belonging to the bar at that index, and both to one span of the hierarchy, whose id is
  their row. The offset of the bar (its base, and the position of the annotation) is the
  start time of the span in milliseconds minus the reference start time, not rounded. The
  duration is rounded to two decimals by the parser, and it is this rounded value that is
  the length of the bar and that is added to the offset in the running maximum. The text
  of the annotation prints the same rounded value with \<^verbatim>\<open>toFixed(2)\<close>, which prints its
  hundredths and rounds nothing further.
\<close>

theorem C4_layout_numbers:
  assumes "createPlotlyData depth m spans mode colorMap startTimeInMs = Inr res"
  shows "length (annotations res) = length (data res) \<and>
         (\<forall>(b, a) \<in> set (zip (data res) (annotations res)). \<exists>sp \<in> ran m. \<exists>p.
            parseSpanHitData (hit sp) mode = Inr p \<and>
            bar_y b = hitId mode (hit sp) \<and> ann_y a = hitId mode (hit sp) \<and>
            base b = nanoToMilliSec (startTimeInNanos sp) - startTimeInMs \<and>
            ann_x a = base b \<and>
            bar_x b = round2 (rawDurationInMs mode (hit sp)) \<and>
            ann_text a =
              (if hd_error p = [] then []
               else ''<span style=\"color: red;\">'' @ hd_error p @ ''</span>&nbsp;&nbsp;'') @
              toString (hd_serviceName p) @ '': '' @ toString (hd_name p) @ '' - '' @
              toFixed2 (round2 (rawDurationInMs mode (hit sp))) @ ''ms'') \<and>
         maxX res = fold max (map (\<lambda>b. base b + bar_x b) (data res)) 0 \<and>
         (\<forall>x. toFixed2 (round2 x) =
            (if \<lfloor>x * 100 + 1 / 2\<rfloor> < 0 then ''-'' else '''') @
            showNat (nat \<bar>\<lfloor>x * 100 + 1 / 2\<rfloor>\<bar> div 100) @ ''.'' @
            [digit (nat \<bar>\<lfloor>x * 100 + 1 / 2\<rfloor>\<bar> div 10), digit (nat \<bar>\<lfloor>x * 100 + 1 / 2\<rfloor>\<bar>)])"
proof -
  from assms obtain ks where
    z: "zip (data res) (annotations res) = concat (map (keyEmits m mode colorMap startTimeInMs) ks)"
    and l: "length (annotations res) = length (data res)"
    by (rule createPlotlyData_pairs)
  have 1: "\<exists>sp \<in> ran m. \<exists>p.
            parseSpanHitData (hit sp) mode = Inr p \<and>
            bar_y b = hitId mode (hit sp) \<and> ann_y a = hitId mode (hit sp) \<and>
            base b = nanoToMilliSec (startTimeInNanos sp) - startTimeInMs \<and>
            ann_x a = base b \<and>
            bar_x b = round2 (rawDurationInMs mode (hit sp)) \<and>
            ann_text a =
              (if hd_error p = [] then []
               else ''<span style=\"color: red;\">'' @ hd_error p @ ''</span>&nbsp;&nbsp;'') @
              toString (hd_serviceName p) @ '': '' @ toString (hd_name p) @ '' - '' @
              toFixed2 (round2 (rawDurationInMs mode (hit sp))) @ ''ms''"
    if "(b, a) \<in> set (zip (data res) (annotations res))" for b a
  proof -
    from that z obtain k where "(b, a) \<in> set (keyEmits m mode colorMap startTimeInMs k)"
      by auto
    then show ?thesis
    proof (rule keyEmits_cases)
      fix sp p
      assume sp: "m k = Some sp" and p: "parseSpanHitData (hit sp) mode = Inr p"
        and e: "(b, a) = (spanBar colorMap (nanoToMilliSec (startTimeInNanos sp) - startTimeInMs) p,
                 spanBarLabel (nanoToMilliSec (startTimeInNanos sp) - startTimeInMs) p)"
      from sp have "sp \<in> ran m" by (auto simp: ran_def)
      moreover from e parseSpanHitData_Inr[OF p] have
        "bar_y b = hitId mode (hit sp)" "ann_y a = hitId mode (hit sp)"
        "base b = nanoToMilliSec (startTimeInNanos sp) - startTimeInMs" "ann_x a = base b"
        "bar_x b = round2 (rawDurationInMs mode (hit sp))"
        "ann_text a =
              (if hd_error p = [] then []
               else ''<span style=\"color: red;\">'' @ hd_error p @ ''</span>&nbsp;&nbsp;'') @
              toString (hd_serviceName p) @ '': '' @ toString (hd_name p) @ '' - '' @
              toFixed2 (round2 (rawDurationInMs mode (hit sp))) @ ''ms''"
        by (simp_all add: spanBar_def spanBarLabel_def labelText_def truthy_def)
      ultimately show ?thesis using p by blast
    qed
  qed
  have e: "(\<lambda>b. base b + bar_x b) = extent" by (auto simp: extent_def)
  from 1 l createPlotlyData_aligned(3)[OF assms] toFixed2_round2 show ?thesis
    unfolding e by blast
qed

text \<open>The statement of C4 at the layout of one jaeger span of 1234 microseconds.\<close>

theorem C4_layout_numbers_witness:
  "returns (createPlotlyData 1
      (fst (hitsToHierarchicalSpans exampleConversions roundingHits jaeger))
      (snd (hitsToHierarchicalSpans exampleConversions roundingHits jaeger))
      jaeger Map.empty 0) \<and>
   length (annotations (projr (createPlotlyData 1
      (fst (hitsToHierarchicalSpans exampleConversions roundingHits jaeger))
      (snd (hitsToHierarchicalSpans exampleConversions roundingHits jaeger))
      jaeger Map.empty 0))) =
   length (data (projr (createPlotlyData 1
      (fst (hitsToHierarchicalSpans exampleConversions roundingHits jaeger))
      (snd (hitsToHierarchicalSpans exampleConversions roundingHits jaeger))
      jaeger Map.empty 0))) \<and>
   map ann_text (annotations (projr (createPlotlyData 1
      (fst (hitsToHierarchicalSpans exampleConversions roundingHits jaeger))
      (snd (hitsToHierarchicalSpans exampleConversions roundingHits jaeger))
      jaeger Map.empty 0))) = [''frontend: HTTP GET - 1.23ms'']"
proof -
  have r: "returns (createPlotlyData 1
      (fst (hitsToHierarchicalSpans exampleConversions roundingHits jaeger))
      (snd (hitsToHierarchicalSpans exampleConversions roundingHits jaeger))
      jaeger Map.empty 0)"
    by code_simp
  have t: "map ann_text (annotations (projr (createPlotlyData 1
      (fst (hitsToHierarchicalSpans exampleConversions roundingHits jaeger))
      (snd (hitsToHierarchicalSpans exampleConversions roundingHits jaeger))
      jaeger Map.empty 0))) = [''frontend: HTTP GET - 1.23ms'']"
    by code_simp
  from C4_layout_numbers[OF returns_projr[OF r]] r t show ?thesis by blast
qed

text \<open>
  C4 as stated fails: a jaeger span of 1234 microseconds lasts 1.234 ms, and the bar that
  the layout emits has the length 1.23, which is also the maximum extent.
\<close>

theorem C4_counterexample:
  "map bar_x (gantt (projr (buildChartModel 1 exampleConversions roundingHits jaeger Map.empty))) =
     [123 / 100] \<and>
   map (rawDurationInMs jaeger) roundingHits = [1234 / 1000] \<and>
   ganttMax (projr (buildChartModel 1 exampleConversions roundingHits jaeger Map.empty)) =
     123 / 100"
  by code_simp

lemma build_node_hit:
  assumes "hitsToHierarchicalSpans cv hits mode = (m, roots)" and "m k = Some sp"
  shows "hit sp \<in> set hits" and "hitId mode (hit sp) = k"
    and "startTimeInNanos sp = getStartTimeInNanos cv (hit sp) mode"
proof -
  from assms(2) have "hitOf m k = Some (hit sp)" by (simp add: hitOf_def)
  from build_facts(2)[OF assms(1) this]
  show "hit sp \<in> set hits" and "hitId mode (hit sp) = k" by simp_all
  show "startTimeInNanos sp = getStartTimeInNanos cv (hit sp) mode"
    by (rule build_facts(3)[OF assms])
qed

text \<open>
  C5, as amended. The offset of every bar is the start time of its span in milliseconds
  minus the earliest start time among the root spans that the builder returned (which is
  what the panel passes to the layout), with no rounding; a span that is not a root does
  not enter the minimum.
\<close>

theorem C5_offset_relative_to_roots:
  assumes "buildChartModel depth cv hits mode colorMap = Inr st"
    and "hitsToHierarchicalSpans cv hits mode = (m, roots)"
    and "b \<in> set (gantt st)"
  shows "\<exists>h \<in> set hits. bar_y b = hitId mode h \<and>
           base b = nanoToMilliSec (getStartTimeInNanos cv h mode) -
                    Min (set (map (\<lambda>k. nanoToMilliSec (startOf m k)) roots))"
  using assms(1,2)
proof (rule buildChartModel_Inr)
  assume "gantt st = []"
  with assms(3) show ?thesis by simp
next
  fix res
  let ?s = "Min (set (map (\<lambda>k. nanoToMilliSec (startOf m k)) roots))"
  assume c: "createPlotlyData depth m roots mode colorMap ?s = Inr res"
    and g: "gantt st = data res"
  from assms(3) g have "b \<in> set (data res)" by simp
  with c show ?thesis
  proof (rule createPlotlyData_bars)
    fix k sp p
    assume sp: "m k = Some sp" and p: "parseSpanHitData (hit sp) mode = Inr p"
      and b: "b = spanBar colorMap (nanoToMilliSec (startTimeInNanos sp) - ?s) p"
    from build_node_hit[OF assms(2) sp] parseSpanHitData_Inr(1)[OF p] b
    show ?thesis by (auto simp: spanBar_def intro!: bexI[of _ "hit sp"])
  qed
qed

text \<open>The statement of C5 at a root and its child, the child starting before the root.\<close>

theorem C5_offset_relative_to_roots_witness:
  "returns (buildChartModel 2 exampleConversions skewHits jaeger Map.empty) \<and>
   list_ex (\<lambda>h. base (gantt (projr (buildChartModel 2 exampleConversions skewHits jaeger
                    Map.empty)) ! 1) =
        nanoToMilliSec (getStartTimeInNanos exampleConversions h jaeger) -
        Min (set (map (\<lambda>k. nanoToMilliSec
               (startOf (fst (hitsToHierarchicalSpans exampleConversions skewHits jaeger)) k))
               (snd (hitsToHierarchicalSpans exampleConversions skewHits jaeger)))))
     skewHits"
proof -
  let ?r = "buildChartModel 2 exampleConversions skewHits jaeger Map.empty"
  have r: "returns ?r" by code_simp
  have e: "hitsToHierarchicalSpans exampleConversions skewHits jaeger =
      (fst (hitsToHierarchicalSpans exampleConversions skewHits jaeger),
       snd (hitsToHierarchicalSpans exampleConversions skewHits jaeger))"
    by simp
  have "length (gantt (projr ?r)) = 2" by code_simp
  then have i: "gantt (projr ?r) ! 1 \<in> set (gantt (projr ?r))" by simp
  from C5_offset_relative_to_roots[OF returns_projr[OF r] e i] r show ?thesis
    unfolding list_ex_iff by blast
qed

text \<open>
  C5 as stated fails: the child \<open>C\<close> starts 5 microseconds after the epoch and its parent,
  the only root, 10 microseconds after it. The offset of \<open>C\<close> is \<open>-0.005\<close>, relative to the
  root, where the earliest start of the data set, that of \<open>C\<close> itself, gives 0.
\<close>

theorem C5_counterexample:
  "map bar_y (gantt (projr (buildChartModel 2 exampleConversions skewHits jaeger Map.empty))) =
     [''R'', ''C''] \<and>
   map base (gantt (projr (buildChartModel 2 exampleConversions skewHits jaeger Map.empty))) =
     [0, - (5 / 1000)] \<and>
   map (startMs exampleConversions jaeger) skewHits =
     [10 / 1000, 5 / 1000]"
  by code_simp

subsection \<open>The maximum extent\<close>

lemma preorder_ok:
  assumes "preorder d m mode k = Some ks"
  obtains sp p where "m k = Some sp" "parseSpanHitData (hit sp) mode = Inr p" "k \<in> set ks"
proof (cases d)
  case 0
  with assms show ?thesis by simp
next
  case (Suc d')
  with assms have "preorder (Suc d') m mode k = Some ks" by simp
  then show ?thesis by (rule preorder_Suc_Some) (auto intro: that)
qed

lemma preorderAll_blocks:
  assumes "preorderAll d m mode spans = Some ks" and "r \<in> set spans"
  obtains b where "preorder d m mode r = Some b" "set b \<subseteq> set ks"
proof -
  let ?cs = "sort_key (startOf m) spans"
  from assms(1) obtain blocks where
    bl: "those (map (\<lambda>c. preorder d m mode c) ?cs) = Some blocks" and ks: "ks = concat blocks"
    by (auto simp: preorderAll_def)
  from assms(2) have "r \<in> set ?cs" by simp
  then obtain i where i: "i < length ?cs" "?cs ! i = r" by (metis in_set_conv_nth)
  with those_map_Some[OF bl] have p: "preorder d m mode r = Some (blocks ! i)"
    and l: "i < length blocks"
    by auto
  from l ks have "set (blocks ! i) \<subseteq> set ks"
    by (auto intro!: bexI[of _ "blocks ! i"])
  with p show ?thesis by (rule that)
qed

lemma round2_nonneg: "0 \<le> x \<Longrightarrow> 0 \<le> round2 x"
  by (simp add: round2_def)

lemma layout_Max:
  assumes "createPlotlyData depth m spans mode cm s = Inr res"
  shows "maxX res = Max (insert 0 (extent ` set (data res)))"
  by (simp add: createPlotlyData_aligned(3)[OF assms] fold_max_Max)

text \<open>Every root that the panel lays out has a bar, whose offset is not negative.\<close>

lemma build_root_bar:
  assumes "hitsToHierarchicalSpans cv hits mode = (m, roots)"
    and "createPlotlyData depth m roots mode cm
           (Min (set (map (\<lambda>k. nanoToMilliSec (startOf m k)) roots))) = Inr res"
    and "r \<in> set roots"
  obtains b sp where "b \<in> set (data res)" "m r = Some sp" "0 \<le> base b"
    "bar_x b = round2 (rawDurationInMs mode (hit sp))"
proof -
  let ?s = "Min (set (map (\<lambda>k. nanoToMilliSec (startOf m k)) roots))"
  from assms(2) obtain ks where ks: "preorderAll depth m mode roots = Some ks"
    and d: "data res = concat (map (keyBars m mode cm ?s) ks)"
    by (rule createPlotlyData_data)
  from ks assms(3) obtain blk where blk: "preorder depth m mode r = Some blk" "set blk \<subseteq> set ks"
    by (rule preorderAll_blocks)
  from blk(1) obtain sp p where sp: "m r = Some sp"
    and p: "parseSpanHitData (hit sp) mode = Inr p" and "r \<in> set blk"
    by (rule preorder_ok)
  with blk(2) have rk: "r \<in> set ks" by auto
  let ?b = "spanBar cm (nanoToMilliSec (startTimeInNanos sp) - ?s) p"
  have "keyBars m mode cm ?s r = [?b]" by (simp add: keyBars_def sp p)
  with rk d have 1: "?b \<in> set (data res)" by force
  have "nanoToMilliSec (startOf m r) \<in> set (map (\<lambda>k. nanoToMilliSec (startOf m k)) roots)"
    using assms(3) by simp
  then have "?s \<le> nanoToMilliSec (startOf m r)" by (intro Min_le) simp_all
  then have 2: "0 \<le> base ?b" by (simp add: spanBar_def startOf_def sp)
  have 3: "bar_x ?b = round2 (rawDurationInMs mode (hit sp))"
    using parseSpanHitData_Inr(2)[OF p] by (simp add: spanBar_def)
  from 1 sp 2 3 show ?thesis by (rule that)
qed

text \<open>
  C7, as amended. The maximum extent that the layout returns, and that the panel holds, is
  the maximum of 0 and of offset plus duration over the bars: the running maximum starts
  at 0. It is the maximum over the bars alone when the chart has a bar and no duration is
  negative. The full range is from 0 to the maximum extent times 1.1, the range selected
  after the chart is rebuilt is the full range, and so is the range that the reset of the
  zoom selects, whatever range was selected before.
\<close>

theorem C7_max_extent_and_reset:
  assumes "buildChartModel depth cv hits mode colorMap = Inr st"
  shows "ganttMax st = Max (insert 0 ((\<lambda>b. base b + bar_x b) ` set (gantt st))) \<and>
         (gantt st \<noteq> [] \<and> (\<forall>h \<in> set hits. 0 \<le> rawDurationInMs mode h) \<longrightarrow>
            ganttMax st = Max ((\<lambda>b. base b + bar_x b) ` set (gantt st))) \<and>
         (\<forall>m spans startTimeInMs res.
            createPlotlyData depth m spans mode colorMap startTimeInMs = Inr res \<longrightarrow>
            maxX res = Max (insert 0 ((\<lambda>b. base b + bar_x b) ` set (data res)))) \<and>
         fullRange st = (0, ganttMax st * 1.1) \<and>
         selectedRange st = fullRange st \<and>
         selectedRange (resetZoom (st\<lparr>selectedRange := rng\<rparr>)) = (0, ganttMax st * 1.1)"
proof -
  obtain m roots where h: "hitsToHierarchicalSpans cv hits mode = (m, roots)"
    by (cases "hitsToHierarchicalSpans cv hits mode")
  have e: "extent = (\<lambda>b. base b + bar_x b)" by (auto simp: extent_def)
  have sel: "selectedRange st = (0, ganttMax st * 1.1)"
    using assms(1) by (auto simp: buildChartModel_def Let_def split: prod.splits sum.splits)
  have mx: "ganttMax st = Max (insert 0 (extent ` set (gantt st)))"
    using assms(1) h
  proof (rule buildChartModel_Inr)
    assume "gantt st = []" "ganttMax st = 0"
    then show ?thesis by simp
  next
    fix res
    assume "createPlotlyData depth m roots mode colorMap
        (Min (set (map (\<lambda>k. nanoToMilliSec (startOf m k)) roots))) = Inr res"
      and "gantt st = data res" and "ganttMax st = maxX res"
    with layout_Max[OF this(1)] show ?thesis by simp
  qed
  have pos: "ganttMax st = Max (extent ` set (gantt st))"
    if ne: "gantt st \<noteq> []" and nn: "\<forall>h \<in> set hits. 0 \<le> rawDurationInMs mode h"
    using assms(1) h
  proof (rule buildChartModel_Inr)
    assume "gantt st = []"
    with ne show ?thesis by simp
  next
    fix res
    let ?s = "Min (set (map (\<lambda>k. nanoToMilliSec (startOf m k)) roots))"
    assume rne: "roots \<noteq> []"
      and c: "createPlotlyData depth m roots mode colorMap ?s = Inr res"
      and g: "gantt st = data res" and mxr: "ganttMax st = maxX res"
    from rne obtain r where "r \<in> set roots" by (cases roots) auto
    with h c obtain b sp where b: "b \<in> set (data res)" "m r = Some sp" "0 \<le> base b"
      "bar_x b = round2 (rawDurationInMs mode (hit sp))"
      by (rule build_root_bar)
    from build_node_hit(1)[OF h b(2)] nn have "0 \<le> rawDurationInMs mode (hit sp)"
      by blast
    with b(3,4) have "0 \<le> extent b" by (simp add: extent_def round2_nonneg)
    moreover have "extent b \<le> Max (extent ` set (data res))"
      using b(1) by (intro Max_ge) simp_all
    ultimately have "0 \<le> Max (extent ` set (data res))" by linarith
    moreover have "extent ` set (data res) \<noteq> {}" using b(1) by auto
    ultimately have "Max (insert 0 (extent ` set (data res))) = Max (extent ` set (data res))"
      by (simp add: max_def)
    with layout_Max[OF c] g mxr show ?thesis by simp
  qed
  have lay: "maxX res = Max (insert 0 (extent ` set (data res)))"
    if "createPlotlyData depth m' spans mode colorMap s = Inr res" for m' spans s res
    using that by (rule layout_Max)
  from mx pos lay sel show ?thesis
    unfolding e by (simp add: fullRange_def resetZoom_def)
qed

text \<open>The statement of C7 at a root with one child and a second root, after a zoom to the
  range from 2 to 5.\<close>

theorem C7_max_extent_and_reset_witness:
  "returns (buildChartModel 2 exampleConversions nestedHits jaeger Map.empty) \<and>
   ganttMax (projr (buildChartModel 2 exampleConversions nestedHits jaeger Map.empty)) =
     Max (insert 0 ((\<lambda>b. base b + bar_x b) `
       set (gantt (projr (buildChartModel 2 exampleConversions nestedHits jaeger Map.empty))))) \<and>
   ganttMax (projr (buildChartModel 2 exampleConversions nestedHits jaeger Map.empty)) = 10 \<and>
   selectedRange (resetZoom
     ((projr (buildChartModel 2 exampleConversions nestedHits jaeger Map.empty))
        \<lparr>selectedRange := (2, 5)\<rparr>)) =
     (0, ganttMax (projr (buildChartModel 2 exampleConversions nestedHits jaeger Map.empty)) * 1.1)"
proof -
  let ?r = "buildChartModel 2 exampleConversions nestedHits jaeger Map.empty"
  have r: "returns ?r" by code_simp
  have g: "ganttMax (projr ?r) = 10" by code_simp
  from C7_max_extent_and_reset[OF returns_projr[OF r], of "(2, 5)"] r g
  show ?thesis by blast
qed

text \<open>
  C7 as stated fails: for one span with the duration of -5000 microseconds the only bar
  ends at -5, and the maximum extent is 0, the value at which the running maximum starts.
\<close>

theorem C7_counterexample:
  "map extent (gantt (projr (buildChartModel 1 exampleConversions negHits jaeger Map.empty))) =
     [- 5] \<and>
   ganttMax (projr (buildChartModel 1 exampleConversions negHits jaeger Map.empty)) = 0"
  by code_simp

subsection \<open>The annotations of the visible range\<close>

lemma mapE_Inr:
  assumes "\<And>x. x \<in> set xs \<Longrightarrow> f x = Inr (g x)"
  shows "mapE f xs = Inr (map g xs)"
  using assms by (induction xs) simp_all

lemma normalizeAnnotation_reprojected:
  assumes "i < length g" and "ann_y a = bar_y (g ! i)"
  shows "normalizeAnnotation g (visibleStart, visibleEnd) (a, i) =
           Inr (reprojected visibleStart (g ! i) a)"
  using assms by (simp add: normalizeAnnotation_def reprojected_def Let_def)

lemma layoutAnnotations_aligned:
  assumes "map ann_y (ganttAnnotations st) = map bar_y (gantt st)"
    and "selectedRange st = (visibleStart, visibleEnd)"
  shows "layoutAnnotations st =
           Inr (map2 (reprojected visibleStart) (gantt st) (ganttAnnotations st))"
proof -
  let ?g = "gantt st" and ?a = "ganttAnnotations st"
  from assms(1) have len: "length ?a = length ?g" by (metis length_map)
  have 1: "normalizeAnnotation ?g (visibleStart, visibleEnd) x =
            Inr (reprojected visibleStart (?g ! snd x) (fst x))"
    if "x \<in> set (zip ?a [0 ..< length ?a])" for x
  proof -
    from that obtain j where j: "j < length ?a" "x = (?a ! j, j)"
      by (auto simp: in_set_conv_nth)
    from j(1) len assms(1) have "ann_y (?a ! j) = bar_y (?g ! j)"
      by (metis nth_map)
    with j len show ?thesis by (simp add: normalizeAnnotation_reprojected)
  qed
  have 2: "map (\<lambda>x. reprojected visibleStart (?g ! snd x) (fst x)) (zip ?a [0 ..< length ?a]) =
           map2 (reprojected visibleStart) ?g ?a"
    using len by (intro nth_equalityI) simp_all
  have "mapE (normalizeAnnotation ?g (visibleStart, visibleEnd)) (zip ?a [0 ..< length ?a]) =
        Inr (map (\<lambda>x. reprojected visibleStart (?g ! snd x) (fst x))
               (zip ?a [0 ..< length ?a]))"
    by (rule mapE_Inr) (rule 1)
  with 2 show ?thesis
    unfolding layoutAnnotations_def assms(2) by simp
qed

lemma buildChartModel_aligned:
  assumes "buildChartModel depth cv hits mode cm = Inr st"
  shows "map ann_y (ganttAnnotations st) = map bar_y (gantt st)"
    and "map ann_x (ganttAnnotations st) = map base (gantt st)"
proof -
  obtain m roots where h: "hitsToHierarchicalSpans cv hits mode = (m, roots)"
    by (cases "hitsToHierarchicalSpans cv hits mode")
  show "map ann_y (ganttAnnotations st) = map bar_y (gantt st)"
    using assms h by (rule buildChartModel_Inr) (simp_all add: createPlotlyData_aligned)
  show "map ann_x (ganttAnnotations st) = map base (gantt st)"
    using assms h by (rule buildChartModel_Inr) (simp_all add: createPlotlyData_aligned)
qed

text \<open>
  C8. In a chart that the panel has built, the annotation at an index belongs to the bar at
  the same index and is placed at the offset of that bar. When the visible range is set,
  the annotations of the layout are computed without an exception, and each is the one
  of the chart with its position moved to the start of the visible range when it lies
  before that start and its bar ends after it, and unchanged otherwise; so the annotation
  of a bar that ends at or before the start of the visible range keeps its position.
\<close>

theorem C8_annotation_reprojection:
  assumes "buildChartModel depth cv hits mode colorMap = Inr st"
  shows "map ann_y (ganttAnnotations st) = map bar_y (gantt st) \<and>
         map ann_x (ganttAnnotations st) = map base (gantt st) \<and>
         layoutAnnotations (st\<lparr>selectedRange := (visibleStart, visibleEnd)\<rparr>) =
           Inr (map2 (reprojected visibleStart) (gantt st) (ganttAnnotations st)) \<and>
         (\<forall>b a. base b + bar_x b \<le> visibleStart \<longrightarrow> reprojected visibleStart b a = a) \<and>
         (\<forall>b a. ann_x a < visibleStart \<and> visibleStart < base b + bar_x b \<longrightarrow>
                ann_x (reprojected visibleStart b a) = visibleStart)"
proof -
  note al = buildChartModel_aligned[OF assms]
  have "layoutAnnotations (st\<lparr>selectedRange := (visibleStart, visibleEnd)\<rparr>) =
           Inr (map2 (reprojected visibleStart) (gantt st) (ganttAnnotations st))"
    using layoutAnnotations_aligned[of "st\<lparr>selectedRange := (visibleStart, visibleEnd)\<rparr>"
        visibleStart visibleEnd] al(1)
    by simp
  with al show ?thesis by (simp add: reprojected_def)
qed

text \<open>The statement of C8 at a root with one child and a second root, with the visible
  range from 4 to 8: the labels of \<open>R\<close> (from 0 to 10) and \<open>C1\<close> (from 2 to 7) move to 4, the
  label of \<open>C2\<close> (from 1 to 2) stays at 1.\<close>

theorem C8_annotation_reprojection_witness:
  "returns (buildChartModel 2 exampleConversions nestedHits jaeger Map.empty) \<and>
   layoutAnnotations
     ((projr (buildChartModel 2 exampleConversions nestedHits jaeger Map.empty))
        \<lparr>selectedRange := (4, 8)\<rparr>) =
   Inr (map2 (reprojected 4)
          (gantt (projr (buildChartModel 2 exampleConversions nestedHits jaeger Map.empty)))
          (ganttAnnotations
             (projr (buildChartModel 2 exampleConversions nestedHits jaeger Map.empty)))) \<and>
   map ann_x (map2 (reprojected 4)
          (gantt (projr (buildChartModel 2 exampleConversions nestedHits jaeger Map.empty)))
          (ganttAnnotations
             (projr (buildChartModel 2 exampleConversions nestedHits jaeger Map.empty)))) =
     [4, 4, 1]"
proof -
  let ?r = "buildChartModel 2 exampleConversions nestedHits jaeger Map.empty"
  have r: "returns ?r" by code_simp
  have x: "map ann_x (map2 (reprojected 4) (gantt (projr ?r)) (ganttAnnotations (projr ?r))) =
     [4, 4, 1]"
    by code_simp
  from C8_annotation_reprojection[OF returns_projr[OF r], of 4 8] r x show ?thesis by blast
qed

subsection \<open>Every span once\<close>




















subsection \<open>The order of the rows\<close>



















end
